theory Spec2Isabelle
  imports Complex_Main
begin

text \<open>
  The display and inspection helpers of \<open>lsstUtils.py\<close>: the contrast estimator
  \<open>zscale\<close>, the display functions built on \<open>matplotlib.pyplot\<close>, the extraction of
  heavy-footprint cutouts, and the two catalog helpers \<open>makeHeavyCatalog\<close> and
  \<open>searchCatalog\<close>. Each function of the source is a definition of the same name; what
  numpy, matplotlib and \<open>lsst.afw\<close> do is modelled beside it.
\<close>

section \<open>Values, arrays and errors\<close>

text \<open>
  A pixel is a double that is either the not-a-number sentinel or a number. The arithmetic
  of the numbers is the exact arithmetic of \<^typ>\<open>real\<close>: rounding, overflow and the
  infinities of IEEE doubles are outside this development, and every statement below is
  a statement about the exact computation.
\<close>

datatype float64 = NaN | Finite real

text \<open>A 2-D array is the list of its rows.\<close>

type_synonym ndarray2 = "float64 list list"

text \<open>
  The exceptions that the modelled code paths can raise. \<open>InvalidInput\<close> is the error
  kind that the specification names for degenerate input of the contrast estimator; no
  statement of the source raises it. \<open>NonFiniteResult\<close> stands for a division by a zero
  contrast, where numpy only warns and yields an infinity or a not-a-number; the results
  modelled here are numbers, so that outcome is kept apart as a value of its own.
\<close>

datatype py_error =
    IndexError
  | TypeError
  | AttributeError
  | LengthError
  | InvalidInput
  | NonFiniteResult

section \<open>The contrast estimator \<open>zscale\<close>\<close>

text \<open>\<open>input_img.flatten()\<close>: the rows one after another.\<close>

definition flatten :: "ndarray2 \<Rightarrow> float64 list" where
  "flatten input_img = concat input_img"

text \<open>\<open>samples[~np.isnan(samples)]\<close>: the entries that are numbers, in their order.\<close>

fun drop_nan :: "float64 list \<Rightarrow> real list" where
  "drop_nan [] = []"
| "drop_nan (NaN # vs) = drop_nan vs"
| "drop_nan (Finite r # vs) = r # drop_nan vs"

text \<open>
  Python's slice \<open>xs[start:stop]\<close> on a sequence of length \<open>n\<close>: a negative bound counts
  from the end, and both bounds are clamped to \<open>0..n\<close>. The bound \<open>-0\<close> is the integer
  \<open>0\<close>, so it is not negative and does not count from the end.
\<close>

definition slice_bound :: "nat \<Rightarrow> int \<Rightarrow> nat" where
  "slice_bound n i = (if i < 0 then nat (max 0 (int n + i)) else min n (nat i))"

definition py_slice :: "'a list \<Rightarrow> int \<Rightarrow> int \<Rightarrow> 'a list" where
  "py_slice xs start stop =
     drop (slice_bound (length xs) start) (take (slice_bound (length xs) stop) xs)"

text \<open>
  \<open>int(0.10*len(samples))\<close> and \<open>int(len(subset)/2)\<close>: truncation of a non-negative
  double. The literal \<open>0.10\<close> is taken as the exact tenth; the double nearest to it is
  larger by less than \<open>10\<^sup>-\<^sup>1\<^sup>7\<close>, which changes the truncated product for no length that an
  array can have.
\<close>

definition chop_size_of :: "nat \<Rightarrow> nat" where
  "chop_size_of n = nat \<lfloor>(1 / 10) * real n\<rfloor>"

definition i_midpoint_of :: "nat \<Rightarrow> nat" where
  "i_midpoint_of n = nat \<lfloor>real n / 2\<rfloor>"

text \<open>
  Modelled from the spec: \<open>np.polyfit(x, y, 1)\<close> is a function of numpy and not of this
  source tree; the specification calls it a degree-1 least-squares fit returning slope
  and intercept. The model is the closed form of that fit: the solution of the normal
  equations. numpy raises a \<open>TypeError\<close> on an empty \<open>x\<close> and on vectors of different
  lengths. When all abscissae coincide the fit is rank deficient; numpy then warns and
  returns one of the minimisers, and the model returns the one of slope zero.
\<close>

definition polyfit1 :: "real list \<Rightarrow> real list \<Rightarrow> py_error + (real \<times> real)" where
  "polyfit1 xs ys =
     (let n = real (length xs);
          sx = sum_list xs;
          sy = sum_list ys;
          sxx = sum_list (map (\<lambda>x. x * x) xs);
          sxy = sum_list (map (\<lambda>(x, y). x * y) (zip xs ys));
          d = n * sxx - sx * sx
      in if xs = [] \<or> length xs \<noteq> length ys then Inl TypeError
         else if d = 0 then Inr (0, sy / n)
         else Inr ((n * sxy - sx * sy) / d, (sy * sxx - sx * sxy) / d))"

text \<open>\<open>np.arange(len(subset)) - i_midpoint\<close>\<close>

definition arange_minus :: "nat \<Rightarrow> nat \<Rightarrow> real list" where
  "arange_minus n i_midpoint = map (\<lambda>i. real i - real i_midpoint) [0..<n]"

text \<open>
  \<open>zscale(input_img, contrast)\<close>, statement by statement. Indexing the numpy array
  \<open>subset\<close> out of range raises \<open>IndexError\<close>.
\<close>

definition zscale_subset :: "ndarray2 \<Rightarrow> real list" where
  "zscale_subset input_img =
     (let samples = sort (drop_nan (flatten input_img));
          chop_size = chop_size_of (length samples)
      in py_slice samples (int chop_size) (- int chop_size))"

definition zscale :: "ndarray2 \<Rightarrow> real \<Rightarrow> py_error + (real \<times> real)" where
  "zscale input_img contrast =
     (let subset = zscale_subset input_img;
          i_midpoint = i_midpoint_of (length subset)
      in if \<not> i_midpoint < length subset then Inl IndexError
         else
           let I_mid = subset ! i_midpoint
           in case polyfit1 (arange_minus (length subset) i_midpoint) subset of
                Inl e \<Rightarrow> Inl e
              | Inr (slope, intercept) \<Rightarrow>
                  if contrast = 0 then Inl NonFiniteResult
                  else Inr (I_mid + slope / contrast * (1 - real i_midpoint) / 1,
                            I_mid + slope / contrast
                              * (real (length subset) - real i_midpoint) / 1))"


subsection \<open>The estimator as the specification words it\<close>

text \<open>
  The steps of the specification, written down independently of the source: discard the
  lowest and the highest tenth of the sorted samples, take the element in the middle of
  what remains as the centre, fit a line against the index counted from the centre, and
  project a lower and an upper bound. The index at which the lower bound is taken is a
  parameter \<open>low\<close>: the specification places it one unit below the first index, which is
  index \<open>-1\<close>, and the upper bound at the index that equals the trimmed length. The
  contrast is required to be positive.
\<close>

definition trim_tenth :: "real list \<Rightarrow> real list" where
  "trim_tenth xs = (let k = length xs div 10 in take (length xs - 2 * k) (drop k xs))"

definition zscale_steps :: "int \<Rightarrow> ndarray2 \<Rightarrow> real \<Rightarrow> (real \<times> real) option" where
  "zscale_steps low input_img contrast =
     (let trimmed = trim_tenth (sort (drop_nan (flatten input_img)));
          centre = length trimmed div 2
      in if length trimmed < 2 \<or> contrast \<le> 0 then None
         else case polyfit1 (map (\<lambda>i. real i - real centre) [0..<length trimmed]) trimmed of
                Inl e \<Rightarrow> None
              | Inr (slope, intercept) \<Rightarrow>
                  Some (trimmed ! centre + slope / contrast * (real_of_int low - real centre),
                        trimmed ! centre
                          + slope / contrast * (real (length trimmed) - real centre)))"

definition zscale_spec :: "ndarray2 \<Rightarrow> real \<Rightarrow> (real \<times> real) option" where
  "zscale_spec = zscale_steps (- 1)"

text \<open>The sum of squared residuals of the line \<open>y = a * x + b\<close> on the points \<open>(xs, ys)\<close>.\<close>

definition residual_sq :: "real list \<Rightarrow> real list \<Rightarrow> real \<Rightarrow> real \<Rightarrow> real" where
  "residual_sq xs ys a b = sum_list (map (\<lambda>(x, y). (a * x + b - y) * (a * x + b - y)) (zip xs ys))"

text \<open>
  \<open>ys\<close> is \<open>xs\<close> with not-a-number entries inserted at arbitrary positions (none, some,
  also in front and at the end).
\<close>

inductive nan_inserted :: "float64 list \<Rightarrow> float64 list \<Rightarrow> bool" where
  nan_inserted_Nil: "nan_inserted [] []"
| nan_inserted_NaN: "nan_inserted xs ys \<Longrightarrow> nan_inserted xs (NaN # ys)"
| nan_inserted_keep: "nan_inserted xs ys \<Longrightarrow> nan_inserted (x # xs) (x # ys)"

section \<open>Geometry and images of the host library\<close>

text \<open>
  Modelled from the spec: the classes of \<open>lsst.afw\<close> are not in the source tree. A bounding
  box is an integer rectangle given by its lower-left corner and its dimensions; its
  extent for display is (begin-x, end-x, begin-y, end-y), the ends being exclusive.
\<close>

record Box2I =
  getMinX :: int
  getMinY :: int
  getWidth :: int
  getHeight :: int

definition getBeginX :: "Box2I \<Rightarrow> int" where "getBeginX b = getMinX b"
definition getEndX :: "Box2I \<Rightarrow> int" where "getEndX b = getMinX b + getWidth b"
definition getBeginY :: "Box2I \<Rightarrow> int" where "getBeginY b = getMinY b"
definition getEndY :: "Box2I \<Rightarrow> int" where "getEndY b = getMinY b + getHeight b"

type_synonym extent = "int \<times> int \<times> int \<times> int"

text \<open>The tuple that every display function builds from a bounding box.\<close>

definition extent_of :: "Box2I \<Rightarrow> extent" where
  "extent_of bbox = (getBeginX bbox, getEndX bbox, getBeginY bbox, getEndY bbox)"

definition isEmpty :: "Box2I \<Rightarrow> bool" where
  "isEmpty b = (getWidth b \<le> 0 \<or> getHeight b \<le> 0)"

text \<open>\<open>bbox.contains(Point2I(x, y))\<close> and \<open>bbox.contains(other)\<close>.\<close>

definition containsI :: "Box2I \<Rightarrow> int \<times> int \<Rightarrow> bool" where
  "containsI b p = (getBeginX b \<le> fst p \<and> fst p < getEndX b \<and> getBeginY b \<le> snd p \<and> snd p < getEndY b)"

definition containsBox :: "Box2I \<Rightarrow> Box2I \<Rightarrow> bool" where
  "containsBox b other =
     (isEmpty other \<or>
      (getBeginX b \<le> getBeginX other \<and> getEndX other \<le> getEndX b \<and>
       getBeginY b \<le> getBeginY other \<and> getEndY other \<le> getEndY b))"

text \<open>\<open>bbox.grow(n)\<close>: \<open>n\<close> more pixels on every side.\<close>

definition grow :: "Box2I \<Rightarrow> int \<Rightarrow> Box2I" where
  "grow b n = \<lparr>getMinX = getMinX b - n, getMinY = getMinY b - n,
              getWidth = getWidth b + 2 * n, getHeight = getHeight b + 2 * n\<rparr>"

text \<open>
  An image is a bounding box and the array of its pixels: row \<open>y - minY\<close>, column
  \<open>x - minX\<close>. Reading and writing a pixel is checked against the box and against the
  array itself.
\<close>

record image =
  getBBox :: Box2I
  getArray :: ndarray2

definition getPixel :: "Box2I \<Rightarrow> ndarray2 \<Rightarrow> int \<times> int \<Rightarrow> float64 option" where
  "getPixel bbox arr p =
     (let c = nat (fst p - getMinX bbox); r = nat (snd p - getMinY bbox)
      in if containsI bbox p \<and> r < length arr \<and> c < length (arr ! r)
         then Some (arr ! r ! c) else None)"

definition setPixel :: "Box2I \<Rightarrow> ndarray2 \<Rightarrow> int \<times> int \<Rightarrow> float64 \<Rightarrow> ndarray2 option" where
  "setPixel bbox arr p v =
     (let c = nat (fst p - getMinX bbox); r = nat (snd p - getMinY bbox)
      in if containsI bbox p \<and> r < length arr \<and> c < length (arr ! r)
         then Some (arr[r := (arr ! r)[c := v]]) else None)"

text \<open>\<open>afwImage.ImageF(bbox, fill)\<close>: a new image, every pixel \<open>fill\<close>.\<close>

definition ImageF_fill :: "Box2I \<Rightarrow> float64 \<Rightarrow> image" where
  "ImageF_fill bbox fill =
     \<lparr>getBBox = bbox,
      getArray = replicate (nat (getHeight bbox)) (replicate (nat (getWidth bbox)) fill)\<rparr>"

text \<open>
  \<open>afwImage.ImageF(parent, bbox, afwImage.PARENT)\<close>: the part of \<open>parent\<close> inside \<open>bbox\<close>,
  given in the parent's coordinates; a \<open>LengthError\<close> when the box is not inside the parent.
\<close>

definition ImageF_sub :: "image \<Rightarrow> Box2I \<Rightarrow> py_error + image" where
  "ImageF_sub parent bbox =
     (if \<not> containsBox (getBBox parent) bbox then Inl LengthError
      else Inr \<lparr>getBBox = bbox,
                getArray =
                  map (\<lambda>row. take (nat (getWidth bbox))
                                (drop (nat (getMinX bbox - getMinX (getBBox parent))) row))
                    (take (nat (getHeight bbox))
                       (drop (nat (getMinY bbox - getMinY (getBBox parent))) (getArray parent)))\<rparr>)"

text \<open>A masked image: three planes on one bounding box.\<close>

record masked_image =
  mi_BBox :: Box2I
  mi_image :: ndarray2
  mi_mask :: ndarray2
  mi_variance :: ndarray2

definition getImage :: "masked_image \<Rightarrow> image" where
  "getImage mi = \<lparr>getBBox = mi_BBox mi, getArray = mi_image mi\<rparr>"

definition getArrays :: "masked_image \<Rightarrow> ndarray2 \<times> ndarray2 \<times> ndarray2" where
  "getArrays mi = (mi_image mi, mi_mask mi, mi_variance mi)"

text \<open>
  An exposure: a masked image and, when a Psf is attached, the image that the Psf's
  \<open>computeImage()\<close> renders. Without a Psf \<open>getPsf()\<close> is \<open>None\<close>, and calling
  \<open>computeImage\<close> on it raises \<open>AttributeError\<close>.
\<close>

record exposure =
  getMaskedImage :: masked_image
  getPsf :: "image option"

section \<open>Footprints, source records and catalogs\<close>

text \<open>
  Modelled from the spec: a footprint is an irregular pixel region with a bounding box,
  light (shape only) or heavy (carrying one value for each of its pixels). The region is
  a list of spans, each a row \<open>y\<close> and an inclusive column range \<open>x0..x1\<close>, and the pixels
  are enumerated span after span. A heavy footprint stores its values in that order.
\<close>

record footprint =
  spans :: "(int \<times> int \<times> int) list"
  fp_BBox :: Box2I
  heavy :: "float64 list option"

definition isHeavy :: "footprint \<Rightarrow> bool" where
  "isHeavy fp = (heavy fp \<noteq> None)"

definition span_pixels :: "int \<times> int \<times> int \<Rightarrow> (int \<times> int) list" where
  "span_pixels sp = (case sp of (y, x0, x1) \<Rightarrow> map (\<lambda>x. (x, y)) [x0..x1])"

definition footprint_pixels :: "footprint \<Rightarrow> (int \<times> int) list" where
  "footprint_pixels fp = concat (map span_pixels (spans fp))"

text \<open>
  Modelled from the spec: \<open>afwDet.HeavyFootprintF(fp, maskedImage)\<close> copies the values of
  the data plane at the footprint's exact pixel set into the footprint's own storage. It
  fails with a \<open>LengthError\<close> when the footprint does not lie inside the image.
\<close>

definition HeavyFootprintF :: "footprint \<Rightarrow> masked_image \<Rightarrow> py_error + footprint" where
  "HeavyFootprintF fp mi =
     (if \<not> containsBox (mi_BBox mi) (fp_BBox fp) then Inl LengthError
      else case those (map (getPixel (mi_BBox mi) (mi_image mi)) (footprint_pixels fp)) of
             None \<Rightarrow> Inl LengthError
           | Some vals \<Rightarrow> Inr (fp\<lparr>heavy := Some vals\<rparr>))"

text \<open>
  Modelled from the spec: \<open>afwDet.expandArray(fp, src, dest, xy0)\<close> writes the values
  \<open>src\<close>, one for each pixel of the footprint in order, into the array \<open>dest\<close> whose
  lower-left pixel is \<open>xy0\<close>, and leaves every other pixel of \<open>dest\<close> as it is. It fails
  with a \<open>LengthError\<close> when the number of values is not the number of pixels or a pixel
  lies outside \<open>dest\<close>.
\<close>

fun expand_loop :: "Box2I \<Rightarrow> ndarray2 \<Rightarrow> ((int \<times> int) \<times> float64) list \<Rightarrow> ndarray2 option" where
  "expand_loop box dest [] = Some dest"
| "expand_loop box dest ((p, v) # rest) =
     (case setPixel box dest p v of
        None \<Rightarrow> None
      | Some dest' \<Rightarrow> expand_loop box dest' rest)"

definition expandArray ::
  "footprint \<Rightarrow> float64 list \<Rightarrow> ndarray2 \<Rightarrow> Box2I \<Rightarrow> py_error + ndarray2" where
  "expandArray fp src dest destBox =
     (if length src \<noteq> length (footprint_pixels fp) then Inl LengthError
      else case expand_loop destBox dest (zip (footprint_pixels fp) src) of
             None \<Rightarrow> Inl LengthError
           | Some dest' \<Rightarrow> Inr dest')"

text \<open>
  \<open>getHeavyFootprintSubimage(fp, badfill, grow)\<close>. The cast \<open>HeavyFootprintF_cast\<close> of a
  footprint that is not heavy yields \<open>None\<close>, on which \<open>getBBox\<close> raises
  \<open>AttributeError\<close>. The array of \<open>subim2\<close> is anchored at \<open>bbox.getCorners()[0]\<close>, the
  lower-left corner of \<open>bbox\<close>.
\<close>

definition getHeavyFootprintSubimage :: "footprint \<Rightarrow> float64 \<Rightarrow> int \<Rightarrow> py_error + image" where
  "getHeavyFootprintSubimage fp badfill grw =
     (case heavy fp of
        None \<Rightarrow> Inl AttributeError
      | Some vals \<Rightarrow>
          let bbox = (if grw > 0 then grow (fp_BBox fp) grw else fp_BBox fp);
              subim2 = ImageF_fill bbox badfill
          in case expandArray fp vals (getArray subim2) bbox of
               Inl e \<Rightarrow> Inl e
             | Inr arr \<Rightarrow> Inr (subim2\<lparr>getArray := arr\<rparr>))"

text \<open>A source record owns one footprint; a catalog is the sequence of its records.\<close>

record source_record =
  getFootprint :: footprint

type_synonym catalog = "source_record list"

text \<open>
  Catalogs are objects: a reference names one, and the store gives the catalog that each
  reference currently denotes. Mutating a catalog in place changes the store at its
  reference.
\<close>

type_synonym catalog_ref = nat

type_synonym store = "catalog_ref \<Rightarrow> catalog"

text \<open>
  The loop of \<open>makeHeavyCatalog\<close> over \<open>enumerate(catalog)\<close>, from index \<open>i\<close> on. It returns
  the records as the loop leaves them, the lines printed (index and text), and the
  exception that ended the loop, if one did; the records before the failing one stay
  replaced.
\<close>

fun makeHeavy_loop ::
  "exposure \<Rightarrow> bool \<Rightarrow> nat \<Rightarrow> catalog \<Rightarrow> catalog \<times> (nat \<times> string) list \<times> py_error option" where
  "makeHeavy_loop exposure verbose i [] = ([], [], None)"
| "makeHeavy_loop exposure verbose i (source # rest) =
     (let fp = getFootprint source
      in if \<not> isHeavy fp then
           let out = (if verbose then [(i, ''not heavy => heavy'')] else [])
           in case HeavyFootprintF fp (getMaskedImage exposure) of
                Inl e \<Rightarrow> (source # rest, out, Some e)
              | Inr hfp \<Rightarrow>
                  (case makeHeavy_loop exposure verbose (i + 1) rest of
                     (rest', out', err) \<Rightarrow>
                       (source\<lparr>getFootprint := hfp\<rparr> # rest', out @ out', err))
         else
           case makeHeavy_loop exposure verbose (i + 1) rest of
             (rest', out', err) \<Rightarrow> (source # rest', out', err))"

text \<open>
  \<open>makeHeavyCatalog(catalog, exposure, verbose)\<close>: the store after the call, the lines
  printed, and the exception raised or the reference returned.
\<close>

definition makeHeavyCatalog ::
  "store \<Rightarrow> catalog_ref \<Rightarrow> exposure \<Rightarrow> bool
     \<Rightarrow> store \<times> (nat \<times> string) list \<times> (py_error + catalog_ref)" where
  "makeHeavyCatalog st catalog exposure verbose =
     (case makeHeavy_loop exposure verbose 0 (st catalog) of
        (records, out, err) \<Rightarrow>
          (st(catalog := records), out,
           case err of None \<Rightarrow> Inr catalog | Some e \<Rightarrow> Inl e))"

text \<open>
  \<open>int(x)\<close> on a number: truncation towards zero. The coordinates given to
  \<open>searchCatalog\<close> are numbers, and the integers of the library are taken as unbounded.
\<close>

definition py_int :: "real \<Rightarrow> int" where
  "py_int x = (if 0 \<le> x then \<lfloor>x\<rfloor> else \<lceil>x\<rceil>)"

text \<open>
  \<open>searchCatalog(catalog, x, y)\<close>. What \<open>bbox.contains(afwGeom.Point2D(x, y))\<close> does is
  the host library's business: it answers or it raises, and that behaviour is the
  parameter \<open>containsD\<close>. The bare \<open>except\<close> catches whatever it raises; what the handler
  itself does is not caught. The function returns the indices printed and the record
  returned, \<open>None\<close> when the loop ends without a \<open>return\<close>.
\<close>

fun searchCatalog_loop ::
  "(Box2I \<Rightarrow> real \<times> real \<Rightarrow> py_error + bool) \<Rightarrow> nat \<Rightarrow> catalog \<Rightarrow> real \<Rightarrow> real
     \<Rightarrow> nat list \<times> source_record option" where
  "searchCatalog_loop containsD i [] x y = ([], None)"
| "searchCatalog_loop containsD i (s # rest) x y =
     (let bbox = fp_BBox (getFootprint s)
      in case containsD bbox (x, y) of
           Inr inside \<Rightarrow>
             if inside then ([i], Some s)
             else searchCatalog_loop containsD (i + 1) rest x y
         | Inl e \<Rightarrow>
             if containsI bbox (py_int x, py_int y) then ([i], Some s)
             else searchCatalog_loop containsD (i + 1) rest x y)"

definition searchCatalog ::
  "(Box2I \<Rightarrow> real \<times> real \<Rightarrow> py_error + bool) \<Rightarrow> catalog \<Rightarrow> real \<Rightarrow> real
     \<Rightarrow> nat list \<times> source_record option" where
  "searchCatalog containsD catalog x y = searchCatalog_loop containsD 0 catalog x y"

text \<open>
  The containment test that the specification describes for one record: the
  floating-point test when it answers, the integer test when it fails.
\<close>

definition bbox_hit :: "(Box2I \<Rightarrow> real \<times> real \<Rightarrow> py_error + bool) \<Rightarrow> real \<Rightarrow> real \<Rightarrow> source_record \<Rightarrow> bool" where
  "bbox_hit containsD x y s =
     (case containsD (fp_BBox (getFootprint s)) (x, y) of
        Inr inside \<Rightarrow> inside
      | Inl e \<Rightarrow> containsI (fp_BBox (getFootprint s)) (py_int x, py_int y))"

section \<open>The rendering backend\<close>

text \<open>
  Modelled from the spec: \<open>matplotlib.pyplot\<close> is not in the source tree. Of its state
  the model keeps whether the module can be imported at all, how many figures have been
  made, the size of the current figure, the subplot that is current, and the panels drawn
  into the current figure, oldest first. A panel records the call of \<open>imshow\<close> that drew
  it together with the title and the colorbar given to it.
\<close>

type_synonym subplot = "nat \<times> nat \<times> nat"

record panel =
  pn_subplot :: subplot
  pn_title :: string
  pn_array :: ndarray2
  pn_extent :: "extent option"
  pn_vmin :: real
  pn_vmax :: real
  pn_colorbar :: bool

record pyplot =
  importable :: bool
  figures_made :: nat
  figsize :: "real \<times> real"
  current_subplot :: subplot
  drawn :: "panel list"

text \<open>\<open>plt.figure(figsize=...)\<close>: a new, empty current figure; its number is its handle.\<close>

definition plt_figure :: "real \<times> real \<Rightarrow> pyplot \<Rightarrow> nat \<times> pyplot" where
  "plt_figure fsize plt =
     (Suc (figures_made plt),
      plt\<lparr>figures_made := Suc (figures_made plt), figsize := fsize,
          current_subplot := (1, 1, 1), drawn := []\<rparr>)"

text \<open>\<open>plt.subplot(rows, cols, index)\<close>\<close>

definition plt_subplot :: "subplot \<Rightarrow> pyplot \<Rightarrow> pyplot" where
  "plt_subplot sp plt = plt\<lparr>current_subplot := sp\<rparr>"

section \<open>The display functions\<close>

text \<open>
  Every display function returns the exception it raised, or its return value together
  with the backend's state after the call. \<open>importMatplotlib()\<close> yields the module or
  \<open>False\<close>; on \<open>False\<close> the function returns \<open>None\<close> at once.

  \<open>display2dArray(arr, title, showBars, extent)\<close>: the contrast default of \<open>zscale\<close> is
  \<open>0.25\<close>.
\<close>

definition display2dArray ::
  "pyplot \<Rightarrow> ndarray2 \<Rightarrow> string \<Rightarrow> bool \<Rightarrow> extent option \<Rightarrow> py_error + (panel option \<times> pyplot)" where
  "display2dArray plt arr title showBars ext =
     (if \<not> importable plt then Inr (None, plt)
      else case zscale arr (1 / 4) of
             Inl e \<Rightarrow> Inl e
           | Inr (z1, z2) \<Rightarrow>
               let fig = \<lparr>pn_subplot = current_subplot plt, pn_title = title, pn_array = arr,
                          pn_extent = ext, pn_vmin = z1, pn_vmax = z2, pn_colorbar = showBars\<rparr>
               in Inr (Some fig, plt\<lparr>drawn := drawn plt @ [fig]\<rparr>))"

text \<open>
  The argument \<open>images\<close> of \<open>displayImages\<close> is a Python object: a tuple of images, or,
  as \<open>displayImage\<close> passes it, one image object by itself, since \<open>(image)\<close> is the image
  and not a 1-tuple. What \<open>enumerate\<close> does on an image object is the host library's
  business: either the object is not iterable and \<open>enumerate\<close> raises \<open>TypeError\<close>, or
  it is iterated through its index operator, which rejects the index \<open>0\<close> and so ends the
  iteration before the first item.
\<close>

datatype images_arg = Tuple "image list" | Bare image

datatype bare_iteration = NotIterable | YieldsNothing

fun displayImages_loop ::
  "pyplot \<Rightarrow> nat \<Rightarrow> nat \<Rightarrow> image list \<Rightarrow> bool \<Rightarrow> py_error + pyplot" where
  "displayImages_loop plt n i [] showBars = Inr plt"
| "displayImages_loop plt n i (img # rest) showBars =
     (let bbox = getBBox img;
          ext = extent_of bbox;
          plt1 = plt_subplot (1, n, i + 1) plt;
          ma = getArray img
      in case display2dArray plt1 ma ''Data'' showBars (Some ext) of
           Inl e \<Rightarrow> Inl e
         | Inr (_, plt2) \<Rightarrow> displayImages_loop plt2 n (i + 1) rest showBars)"

definition displayImages ::
  "bare_iteration \<Rightarrow> pyplot \<Rightarrow> images_arg \<Rightarrow> bool \<Rightarrow> real \<Rightarrow> real
     \<Rightarrow> py_error + (nat option \<times> pyplot)" where
  "displayImages it plt images showBars width height =
     (if \<not> importable plt then Inr (None, plt)
      else case plt_figure (width, height) plt of
             (fig, plt1) \<Rightarrow>
               (case images of
                  Bare img \<Rightarrow>
                    (case it of
                       NotIterable \<Rightarrow> Inl TypeError
                     | YieldsNothing \<Rightarrow> Inr (Some fig, plt1))
                | Tuple ims \<Rightarrow>
                    (case displayImages_loop plt1 (length ims) 0 ims showBars of
                       Inl e \<Rightarrow> Inl e
                     | Inr plt2 \<Rightarrow> Inr (Some fig, plt2))))"

text \<open>\<open>displayImage\<close> passes \<open>(image)\<close> and the constants \<open>True\<close>, \<open>8\<close>, \<open>2.5\<close>.\<close>

definition displayImage ::
  "bare_iteration \<Rightarrow> pyplot \<Rightarrow> image \<Rightarrow> bool \<Rightarrow> real \<Rightarrow> real
     \<Rightarrow> py_error + (nat option \<times> pyplot)" where
  "displayImage it plt img showBars width height =
     displayImages it plt (Bare img) True 8 (5 / 2)"

text \<open>An optional step of a display function: taken when \<open>cond\<close> holds, skipped otherwise.\<close>

definition when_shown ::
  "bool \<Rightarrow> pyplot \<Rightarrow> (pyplot \<Rightarrow> py_error + (panel option \<times> pyplot))
     \<Rightarrow> py_error + (panel option \<times> pyplot)" where
  "when_shown cond plt step = (if cond then step plt else Inr (None, plt))"

definition displayMaskedImage ::
  "pyplot \<Rightarrow> masked_image \<Rightarrow> bool \<Rightarrow> bool \<Rightarrow> bool \<Rightarrow> real \<Rightarrow> real
     \<Rightarrow> py_error + (nat option \<times> pyplot)" where
  "displayMaskedImage plt maskedImage showMasks showVariance showBars width height =
     (if \<not> importable plt then Inr (None, plt)
      else case plt_figure (width, height) plt of
        (fig, plt1) \<Rightarrow>
          let bbox = mi_BBox maskedImage;
              ext = extent_of bbox;
              ma = getArrays maskedImage
          in case display2dArray (plt_subplot (1, 3, 1) plt1) (fst ma) ''Data'' showBars (Some ext) of
               Inl e \<Rightarrow> Inl e
             | Inr (_, plt2) \<Rightarrow>
                 (case when_shown showMasks plt2 (\<lambda>q.
                         display2dArray (plt_subplot (1, 3, 2) q) (fst (snd ma)) ''Masks''
                           showBars (Some ext)) of
                    Inl e \<Rightarrow> Inl e
                  | Inr (_, plt3) \<Rightarrow>
                      (case when_shown showVariance plt3 (\<lambda>q.
                              display2dArray (plt_subplot (1, 3, 3) q) (snd (snd ma)) ''Variance''
                                showBars (Some ext)) of
                         Inl e \<Rightarrow> Inl e
                       | Inr (_, plt4) \<Rightarrow> Inr (Some fig, plt4))))"

definition displayExposure ::
  "pyplot \<Rightarrow> exposure \<Rightarrow> bool \<Rightarrow> bool \<Rightarrow> bool \<Rightarrow> bool \<Rightarrow> real \<Rightarrow> real
     \<Rightarrow> py_error + (nat option \<times> pyplot)" where
  "displayExposure plt exposure showMasks showVariance showPsf showBars width height =
     (if \<not> importable plt then Inr (None, plt)
      else case displayMaskedImage plt (getMaskedImage exposure) showMasks (\<not> showPsf)
                  showBars width height of
             Inl e \<Rightarrow> Inl e
           | Inr (fig, plt1) \<Rightarrow>
               if showPsf then
                 (case getPsf exposure of
                    None \<Rightarrow> Inl AttributeError
                  | Some psfIm \<Rightarrow>
                      let bbox = getBBox psfIm;
                          ext = extent_of bbox
                      in case display2dArray (plt_subplot (1, 3, 3) plt1) (getArray psfIm) ''PSF''
                                showBars (Some ext) of
                           Inl e \<Rightarrow> Inl e
                         | Inr (_, plt2) \<Rightarrow> Inr (fig, plt2))
               else Inr (fig, plt1))"

text \<open>
  The extraction that \<open>displayCutouts\<close> writes out once for each of its three exposures:
  the plain crop of the data plane at the footprint's bounding box, or, as a heavy
  footprint, the footprint's own pixels on a not-a-number background.
\<close>

definition cutout :: "bool \<Rightarrow> footprint \<Rightarrow> Box2I \<Rightarrow> exposure \<Rightarrow> py_error + image" where
  "cutout asHeavyFootprint fp bbox exposure =
     (if \<not> asHeavyFootprint then ImageF_sub (getImage (getMaskedImage exposure)) bbox
      else case HeavyFootprintF fp (getMaskedImage exposure) of
             Inl e \<Rightarrow> Inl e
           | Inr hfp \<Rightarrow> getHeavyFootprintSubimage hfp NaN 0)"

text \<open>One panel of \<open>displayCutouts\<close>: extract, select the subplot, display.\<close>

definition cutout_panel ::
  "pyplot \<Rightarrow> bool \<Rightarrow> footprint \<Rightarrow> Box2I \<Rightarrow> exposure \<Rightarrow> nat \<Rightarrow> string \<Rightarrow> extent
     \<Rightarrow> py_error + (panel option \<times> pyplot)" where
  "cutout_panel plt asHeavyFootprint fp bbox exposure k title ext =
     (case cutout asHeavyFootprint fp bbox exposure of
        Inl e \<Rightarrow> Inl e
      | Inr subexp \<Rightarrow>
          display2dArray (plt_subplot (1, 3, k) plt) (getArray subexp) title True (Some ext))"

definition displayCutouts ::
  "pyplot \<Rightarrow> source_record \<Rightarrow> exposure \<Rightarrow> exposure option \<Rightarrow> exposure option \<Rightarrow> bool
     \<Rightarrow> string \<Rightarrow> real \<times> real \<Rightarrow> py_error + (nat option \<times> pyplot)" where
  "displayCutouts plt source exposure posImage negImage asHeavyFootprint title fsize =
     (if \<not> importable plt then Inr (None, plt)
      else
        let fp = getFootprint source;
            bbox = fp_BBox fp;
            ext = extent_of bbox
        in case plt_figure fsize plt of
          (fig, plt1) \<Rightarrow>
            (case cutout_panel plt1 asHeavyFootprint fp bbox exposure 1 (title @ '' Diffim'') ext of
               Inl e \<Rightarrow> Inl e
             | Inr (_, plt2) \<Rightarrow>
                 (case (case posImage of
                          None \<Rightarrow> Inr (None, plt2)
                        | Some pos \<Rightarrow>
                            cutout_panel plt2 asHeavyFootprint fp bbox pos 2 (title @ '' Pos'') ext) of
                    Inl e \<Rightarrow> Inl e
                  | Inr (_, plt3) \<Rightarrow>
                      (case (case negImage of
                               None \<Rightarrow> Inr (None, plt3)
                             | Some neg \<Rightarrow>
                                 cutout_panel plt3 asHeavyFootprint fp bbox neg 3
                                   (title @ '' Neg'') ext) of
                         Inl e \<Rightarrow> Inl e
                       | Inr (_, plt4) \<Rightarrow> Inr (Some fig, plt4)))))"

section \<open>Notions used in the statements\<close>

text \<open>An array on which \<open>zscale\<close> has at least ten numbers to work with.\<close>

definition displayable :: "ndarray2 \<Rightarrow> bool" where
  "displayable arr = (10 \<le> length (drop_nan (flatten arr)))"

text \<open>The extraction from an exposure succeeds and yields a displayable array.\<close>

definition cutout_ok :: "bool \<Rightarrow> footprint \<Rightarrow> exposure \<Rightarrow> bool" where
  "cutout_ok asHeavyFootprint fp exposure =
     (case cutout asHeavyFootprint fp (fp_BBox fp) exposure of
        Inl e \<Rightarrow> False
      | Inr subexp \<Rightarrow> displayable (getArray subexp))"

text \<open>The secondary exposures that a caller supplied.\<close>

definition supplied :: "'a option \<Rightarrow> 'a list" where
  "supplied x = (case x of None \<Rightarrow> [] | Some v \<Rightarrow> [v])"

text \<open>
  The array \<open>arr\<close>, placed on the footprint's bounding box, shows the footprint on the
  data plane of \<open>mi\<close>: a pixel of the box inside the footprint's pixel set carries the
  value of the data plane at its position, every other pixel of the box is not-a-number.
\<close>

definition heavy_cutout_of :: "footprint \<Rightarrow> masked_image \<Rightarrow> ndarray2 \<Rightarrow> bool" where
  "heavy_cutout_of fp mi arr =
     (\<forall>p. containsI (fp_BBox fp) p \<longrightarrow>
        (if p \<in> set (footprint_pixels fp)
         then getPixel (mi_BBox mi) (mi_image mi) p \<noteq> None \<and>
              getPixel (fp_BBox fp) arr p = getPixel (mi_BBox mi) (mi_image mi) p
         else getPixel (fp_BBox fp) arr p = Some NaN))"

text \<open>The array has the rows and columns of the bounding box.\<close>

definition has_shape :: "Box2I \<Rightarrow> ndarray2 \<Rightarrow> bool" where
  "has_shape box arr =
     (length arr = nat (getHeight box) \<and> list_all (\<lambda>row. length row = nat (getWidth box)) arr)"

text \<open>
  The footprint lies inside the exposure, and its pixels inside its own bounding box.
\<close>

definition fits_exposure :: "exposure \<Rightarrow> footprint \<Rightarrow> bool" where
  "fits_exposure exposure fp =
     (containsBox (mi_BBox (getMaskedImage exposure)) (fp_BBox fp) \<and>
      list_all (containsI (fp_BBox fp)) (footprint_pixels fp))"

text \<open>
  The record after the upgrade that the specification describes: a heavy footprint
  stays as it is, a light one receives the values of the exposure's data plane at its
  pixels, in their order.
\<close>

definition upgraded :: "exposure \<Rightarrow> source_record \<Rightarrow> source_record" where
  "upgraded exposure s =
     (if isHeavy (getFootprint s) then s
      else s\<lparr>getFootprint := (getFootprint s)
             \<lparr>heavy := Some (map (\<lambda>p. the (getPixel (mi_BBox (getMaskedImage exposure))
                                                (mi_image (getMaskedImage exposure)) p))
                                (footprint_pixels (getFootprint s)))\<rparr>\<rparr>)"

text \<open>The diagnostic lines of a verbose upgrade: one for each light record, with its index.\<close>

fun upgrade_lines :: "nat \<Rightarrow> catalog \<Rightarrow> (nat \<times> string) list" where
  "upgrade_lines i [] = []"
| "upgrade_lines i (s # rest) =
     (if isHeavy (getFootprint s) then [] else [(i, ''not heavy => heavy'')])
     @ upgrade_lines (i + 1) rest"

text \<open>The titles of the panels in the current figure after a call, oldest first.\<close>

definition titles_drawn :: "py_error + ('a \<times> pyplot) \<Rightarrow> string list option" where
  "titles_drawn r = (case r of Inl e \<Rightarrow> None | Inr (h, plt) \<Rightarrow> Some (map pn_title (drawn plt)))"

section \<open>Example data\<close>

text \<open>
  A backend that can be imported, an exposure of six by two pixels, a light footprint of
  two spans of five pixels in a bounding box of six by two, and the records that own the
  footprint and its heavy version on the exposure.
\<close>

definition ex_plt :: pyplot where
  "ex_plt = \<lparr>importable = True, figures_made = 0, figsize = (8, 5 / 2),
             current_subplot = (1, 1, 1), drawn = []\<rparr>"

definition ex_box :: Box2I where
  "ex_box = \<lparr>getMinX = 0, getMinY = 0, getWidth = 6, getHeight = 2\<rparr>"

definition ex_plane :: ndarray2 where
  "ex_plane = [[Finite 1, Finite 2, Finite 3, Finite 4, Finite 5, Finite 6],
               [Finite 7, Finite 8, Finite 9, Finite 10, Finite 11, Finite 12]]"

definition ex_exposure :: exposure where
  "ex_exposure =
     \<lparr>getMaskedImage = \<lparr>mi_BBox = ex_box, mi_image = ex_plane, mi_mask = ex_plane,
                        mi_variance = ex_plane\<rparr>,
      getPsf = None\<rparr>"

definition ex_footprint :: footprint where
  "ex_footprint = \<lparr>spans = [(0, 0, 4), (1, 0, 4)], fp_BBox = ex_box, heavy = None\<rparr>"

definition ex_source :: source_record where
  "ex_source = \<lparr>getFootprint = ex_footprint\<rparr>"

definition ex_heavy_source :: source_record where
  "ex_heavy_source =
     \<lparr>getFootprint = ex_footprint\<lparr>heavy := Some [Finite 1, Finite 2, Finite 3, Finite 4, Finite 5,
                                         Finite 7, Finite 8, Finite 9, Finite 10, Finite 11]\<rparr>\<rparr>"

section \<open>Properties of the contrast estimator\<close>

text \<open>
  The two truncations are integer divisions, and the slice \<open>samples[chop_size:-chop_size]\<close>
  keeps the middle of the samples when \<open>chop_size\<close> is positive and nothing when it is
  zero, which is the case for fewer than ten samples.
\<close>


lemma chop_size_of_div: "chop_size_of n = n div 10"
proof -
  have "\<lfloor>(1 / 10) * real n\<rfloor> = \<lfloor>real n / real 10\<rfloor>" by simp
  also have "\<dots> = int (n div 10)" by (simp only: floor_divide_of_nat_eq) 
  finally show ?thesis by (simp add: chop_size_of_def)
qed

lemma i_midpoint_of_div: "i_midpoint_of n = n div 2"
proof -
  have "\<lfloor>real n / 2\<rfloor> = \<lfloor>real n / real 2\<rfloor>" by simp
  also have "\<dots> = int (n div 2)" by (simp only: floor_divide_of_nat_eq) 
  finally show ?thesis by (simp add: i_midpoint_of_def)
qed

lemma py_slice_chop:
  "py_slice xs (int k) (- int k) = (if k = 0 then [] else drop k (take (length xs - k) xs))"
  by (auto simp: py_slice_def slice_bound_def nat_diff_distrib' min_def max_def)

lemma zscale_subset_eq:
  "zscale_subset img =
     (let s = sort (drop_nan (flatten img)); k = length s div 10
      in if length s < 10 then [] else drop k (take (length s - k) s))"
  by (auto simp: zscale_subset_def py_slice_chop chop_size_of_div Let_def)

lemma length_zscale_subset:
  "length (zscale_subset img) =
     (let n = length (drop_nan (flatten img)) in if n < 10 then 0 else n - 2 * (n div 10))"
  by (auto simp: zscale_subset_eq Let_def)

lemma sorted_zscale_subset: "sorted (zscale_subset img)"
  by (simp add: zscale_subset_eq Let_def sorted_wrt_drop sorted_wrt_take)

text \<open>The sums that \<open>polyfit1\<close> forms on the abscissae of \<open>zscale\<close>, as indexed sums.\<close>

lemma sum_list_arange_minus:
  "sum_list (arange_minus n m) = (\<Sum>i = 0..<n. real i - real m)"
  by (simp add: arange_minus_def interv_sum_list_conv_sum_set_nat)

lemma sum_list_sq_arange_minus:
  "sum_list (map (\<lambda>x. x * x) (arange_minus n m))
     = (\<Sum>i = 0..<n. (real i - real m) * (real i - real m))"
  by (simp add: arange_minus_def interv_sum_list_conv_sum_set_nat comp_def)

lemma sum_list_prod_arange_minus:
  assumes "length ys = n"
  shows "sum_list (map (\<lambda>(x, y). x * y) (zip (arange_minus n m) ys))
           = (\<Sum>i = 0..<n. (real i - real m) * ys ! i)"
proof -
  let ?zs = "map (\<lambda>(x, y). x * y) (zip (arange_minus n m) ys)"
  have len: "length ?zs = n" using assms by (simp add: arange_minus_def)
  have "sum_list ?zs = (\<Sum>i = 0..<length ?zs. ?zs ! i)" by (rule sum_list_sum_nth)
  also have "\<dots> = (\<Sum>i = 0..<n. ?zs ! i)" by (simp only: len)
  also have "\<dots> = (\<Sum>i = 0..<n. (real i - real m) * ys ! i)"
    using assms by (intro sum.cong) (auto simp: arange_minus_def)
  finally show ?thesis .
qed

lemma sum_list_nth_upt: "sum_list (ys :: real list) = (\<Sum>i = 0..<length ys. ys ! i)"
  by (rule sum_list_sum_nth)

lemma chebyshev_same_order:
  fixes a b :: "nat \<Rightarrow> real"
  assumes a: "\<And>i j. i \<le> j \<Longrightarrow> j < n \<Longrightarrow> a i \<le> a j"
      and b: "\<And>i j. i \<le> j \<Longrightarrow> j < n \<Longrightarrow> b i \<le> b j"
  shows "(\<Sum>k = 0..<n. a k) * (\<Sum>k = 0..<n. b k) \<le> real n * (\<Sum>k = 0..<n. a k * b k)"
proof -
  define c where "c = (\<lambda>i. - b i)"
  have "of_nat n * (\<Sum>k = 0..<n. a k * c k) \<le> (\<Sum>k = 0..<n. a k) * (\<Sum>k = 0..<n. c k)"
    by (rule Chebyshev_sum_upper) (use a b in \<open>auto simp: c_def\<close>)
  then show ?thesis by (simp add: c_def sum_negf)
qed

lemma cov_nonneg:
  fixes ys :: "real list"
  assumes "sorted ys"
  shows "(\<Sum>i = 0..<length ys. real i - real m) * (\<Sum>i = 0..<length ys. ys ! i)
           \<le> real (length ys) * (\<Sum>i = 0..<length ys. (real i - real m) * ys ! i)"
  by (rule chebyshev_same_order) (use assms in \<open>auto simp: sorted_nth_mono\<close>)

lemma spread_nonneg:
  "(\<Sum>i = 0..<n. real i - real m) * (\<Sum>i = 0..<n. real i - real m)
     \<le> real n * (\<Sum>i = 0..<n. (real i - real m) * (real i - real m))"
  by (rule chebyshev_same_order) auto

lemma polyfit1_slope_nonneg:
  assumes "sorted ys" and "polyfit1 (arange_minus (length ys) m) ys = Inr (slope, icpt)"
  shows "0 \<le> slope"
proof -
  let ?n = "length ys"
  let ?xs = "arange_minus ?n m"
  let ?d = "real ?n * (\<Sum>i = 0..<?n. (real i - real m) * (real i - real m))
              - (\<Sum>i = 0..<?n. real i - real m) * (\<Sum>i = 0..<?n. real i - real m)"
  let ?c = "real ?n * (\<Sum>i = 0..<?n. (real i - real m) * ys ! i)
              - (\<Sum>i = 0..<?n. real i - real m) * (\<Sum>i = 0..<?n. ys ! i)"
  have len: "length ?xs = ?n" by (simp add: arange_minus_def)
  have d: "0 \<le> ?d" using spread_nonneg [where n = "?n" and m = m] by simp
  have c: "0 \<le> ?c" using cov_nonneg [OF assms(1), where m = m] by simp
  have "slope = (if ?d = 0 then 0 else ?c / ?d)"
    using assms(2)
    by (simp add: polyfit1_def Let_def len sum_list_arange_minus sum_list_sq_arange_minus
          sum_list_prod_arange_minus sum_list_nth_upt [of ys] split: if_splits)
  then show ?thesis using c d by simp
qed


lemma length_arange_minus: "length (arange_minus n m) = n"
  by (simp add: arange_minus_def)

lemma polyfit1_arange_Inr:
  assumes "ys \<noteq> []"
  shows "\<exists>slope icpt. polyfit1 (arange_minus (length ys) m) ys = Inr (slope, icpt)"
proof -
  have "arange_minus (length ys) m \<noteq> []"
    using assms by (simp add: arange_minus_def)
  then show ?thesis
    by (simp add: polyfit1_def Let_def length_arange_minus)
qed

lemma zscale_subset_large:
  assumes "10 \<le> length (drop_nan (flatten img))"
  shows "zscale_subset img = trim_tenth (sort (drop_nan (flatten img)))"
    and "8 \<le> length (zscale_subset img)"
proof -
  let ?s = "sort (drop_nan (flatten img))"
  let ?k = "length ?s div 10"
  have n: "10 \<le> length ?s" using assms by simp
  have "2 * ?k \<le> length ?s" by simp
  then have "length ?s - ?k - ?k = length ?s - 2 * ?k" by simp
  then show "zscale_subset img = trim_tenth ?s"
    using n by (simp add: zscale_subset_eq trim_tenth_def Let_def drop_take)
  show "8 \<le> length (zscale_subset img)"
    using assms by (simp add: length_zscale_subset Let_def)
qed

lemma zscale_value:
  assumes "zscale_subset img \<noteq> []" and "contrast \<noteq> 0"
  shows "\<exists>slope icpt.
           polyfit1 (arange_minus (length (zscale_subset img)) (length (zscale_subset img) div 2))
             (zscale_subset img) = Inr (slope, icpt) \<and>
           zscale img contrast =
             Inr (zscale_subset img ! (length (zscale_subset img) div 2)
                    + slope / contrast * (1 - real (length (zscale_subset img) div 2)),
                  zscale_subset img ! (length (zscale_subset img) div 2)
                    + slope / contrast
                      * (real (length (zscale_subset img)) - real (length (zscale_subset img) div 2)))"
proof -
  let ?sub = "zscale_subset img"
  let ?m = "length ?sub div 2"
  obtain slope icpt where fit: "polyfit1 (arange_minus (length ?sub) ?m) ?sub = Inr (slope, icpt)"
    using polyfit1_arange_Inr [OF assms(1)] by blast
  have "?m < length ?sub" using assms(1) by (cases ?sub) auto
  then show ?thesis
    using fit assms(2) by (simp add: zscale_def Let_def i_midpoint_of_div)
qed

lemma zscale_empty_subset:
  assumes "zscale_subset img = []"
  shows "zscale img contrast = Inl IndexError"
  using assms by (simp add: zscale_def Let_def)

lemma zscale_subset_small:
  "length (zscale_subset img) < 8 \<Longrightarrow> zscale_subset img = []"
  by (simp add: zscale_subset_eq Let_def split: if_splits)

lemma trim_tenth_small:
  "length (trim_tenth xs) < 8 \<Longrightarrow> length xs < 10"
  by (simp add: trim_tenth_def Let_def)

lemma nan_inserted_drop_nan: "nan_inserted xs ys \<Longrightarrow> drop_nan ys = drop_nan xs"
proof (induction rule: nan_inserted.induct)
  case nan_inserted_Nil
  show ?case by simp
next
  case (nan_inserted_NaN xs ys)
  then show ?case by simp
next
  case (nan_inserted_keep xs ys x)
  then show ?case by (cases x) simp_all
qed

lemma zscale_cong:
  assumes "drop_nan (flatten b) = drop_nan (flatten a)"
  shows "zscale b contrast = zscale a contrast"
proof -
  have "zscale_subset b = zscale_subset a"
    using assms by (simp add: zscale_subset_def)
  then show ?thesis by (simp add: zscale_def)
qed

text \<open>
  In the exact arithmetic of this development the bounds are ordered: for at least ten
  samples that are numbers and a positive contrast, the slope of the fit on the sorted
  samples is not negative. The statement does not extend to the rounded arithmetic of
  doubles, where the computed slope of a constant trimmed subset can be a negative
  rounding residue.
\<close>

lemma zscale_exact_low_le_high:
  assumes "10 \<le> length (drop_nan (flatten input_img))" and "0 < contrast"
  shows "\<exists>z1 z2. zscale input_img contrast = Inr (z1, z2) \<and> z1 \<le> z2"
proof -
  let ?sub = "zscale_subset input_img"
  let ?m = "length ?sub div 2"
  have len: "8 \<le> length ?sub" using zscale_subset_large(2) [OF assms(1)] .
  then have ne: "?sub \<noteq> []" by auto
  from zscale_value [OF ne, of contrast] assms(2)
  obtain slope icpt where
    fit: "polyfit1 (arange_minus (length ?sub) ?m) ?sub = Inr (slope, icpt)" and
    val: "zscale input_img contrast =
            Inr (?sub ! ?m + slope / contrast * (1 - real ?m),
                 ?sub ! ?m + slope / contrast * (real (length ?sub) - real ?m))"
    by auto
  have "0 \<le> slope"
    using polyfit1_slope_nonneg [OF sorted_zscale_subset fit] .
  then have "0 \<le> slope / contrast" using assms(2) by simp
  moreover have "1 - real ?m \<le> real (length ?sub) - real ?m" using len by simp
  ultimately have "slope / contrast * (1 - real ?m)
                     \<le> slope / contrast * (real (length ?sub) - real ?m)"
    by (rule mult_left_mono [rotated])
  then show ?thesis using val by simp
qed

text \<open>
  C2, as amended: for every 2-D array with at least ten samples that are numbers and
  every positive contrast, \<open>zscale\<close> returns what the steps of the specification give
  when the lower bound is taken at index \<open>1\<close>, one unit above the first index, instead
  of one unit below it.
\<close>

theorem zscale_follows_steps:
  assumes "10 \<le> length (drop_nan (flatten input_img))" and "0 < contrast"
  shows "\<exists>bounds. zscale input_img contrast = Inr bounds
                  \<and> zscale_steps 1 input_img contrast = Some bounds"
proof -
  let ?sub = "zscale_subset input_img"
  let ?m = "length ?sub div 2"
  have sub: "?sub = trim_tenth (sort (drop_nan (flatten input_img)))"
    and len: "8 \<le> length ?sub"
    using zscale_subset_large [OF assms(1)] by auto
  from len have ne: "?sub \<noteq> []" by auto
  from zscale_value [OF ne, of contrast] assms(2)
  obtain slope icpt where
    fit: "polyfit1 (arange_minus (length ?sub) ?m) ?sub = Inr (slope, icpt)" and
    val: "zscale input_img contrast =
            Inr (?sub ! ?m + slope / contrast * (1 - real ?m),
                 ?sub ! ?m + slope / contrast * (real (length ?sub) - real ?m))"
    by auto
  have "zscale_steps 1 input_img contrast =
          Some (?sub ! ?m + slope / contrast * (1 - real ?m),
                ?sub ! ?m + slope / contrast * (real (length ?sub) - real ?m))"
    using fit len assms(2)
    by (simp add: zscale_steps_def Let_def sub [symmetric] arange_minus_def)
  with val show ?thesis by simp
qed

theorem zscale_follows_steps_witness:
  "\<exists>bounds. zscale [[Finite 0, Finite 1, Finite 2, Finite 3, Finite 4, Finite 5],
                     [Finite 6, Finite 7, Finite 8, Finite 9, Finite 10, NaN]] (1 / 4) = Inr bounds
             \<and> zscale_steps 1 [[Finite 0, Finite 1, Finite 2, Finite 3, Finite 4, Finite 5],
                     [Finite 6, Finite 7, Finite 8, Finite 9, Finite 10, NaN]] (1 / 4) = Some bounds"
  using zscale_follows_steps
    [of "[[Finite 0, Finite 1, Finite 2, Finite 3, Finite 4, Finite 5],
          [Finite 6, Finite 7, Finite 8, Finite 9, Finite 10, NaN]]" "1 / 4"]
  by (simp add: flatten_def)

text \<open>
  C2 as stated fails. On the ten samples \<open>0, \<dots>, 9\<close> the trimmed subset is \<open>1, \<dots>, 8\<close>,
  the centre is \<open>5\<close> at index \<open>4\<close> and the slope is \<open>1\<close>: the source returns the lower
  bound \<open>5 + 4 * (1 - 4) = -7\<close>, the steps as worded give \<open>5 + 4 * (-1 - 4) = -15\<close>. On
  the two samples \<open>1, 2\<close> a tenth is no sample at all and the steps as worded fit the two
  points, while the slice of the source is empty and indexing it raises.
\<close>

theorem zscale_steps_counterexample:
  "zscale [[Finite 0, Finite 1, Finite 2, Finite 3, Finite 4],
           [Finite 5, Finite 6, Finite 7, Finite 8, Finite 9]] (1 / 4) = Inr (- 7, 21)
   \<and> zscale_spec [[Finite 0, Finite 1, Finite 2, Finite 3, Finite 4],
                  [Finite 5, Finite 6, Finite 7, Finite 8, Finite 9]] (1 / 4) = Some (- 15, 21)
   \<and> zscale [[Finite 1, Finite 2]] (1 / 4) = Inl IndexError
   \<and> zscale_spec [[Finite 1, Finite 2]] (1 / 4) = Some (- 6, 6)"
proof -
  have "zscale [[Finite 0, Finite 1, Finite 2, Finite 3, Finite 4],
                [Finite 5, Finite 6, Finite 7, Finite 8, Finite 9]] (1 / 4) = Inr (- 7, 21)"
    by (simp add: zscale_def zscale_subset_eq flatten_def Let_def i_midpoint_of_div
          polyfit1_def arange_minus_def upt_rec)
  moreover have "zscale_spec [[Finite 0, Finite 1, Finite 2, Finite 3, Finite 4],
                 [Finite 5, Finite 6, Finite 7, Finite 8, Finite 9]] (1 / 4) = Some (- 15, 21)"
    by (simp add: zscale_spec_def zscale_steps_def trim_tenth_def flatten_def Let_def
          polyfit1_def upt_rec)
  moreover have "zscale [[Finite 1, Finite 2]] (1 / 4) = Inl IndexError"
    by (simp add: zscale_def zscale_subset_eq flatten_def Let_def)
  moreover have "zscale_spec [[Finite 1, Finite 2]] (1 / 4) = Some (- 6, 6)"
    by (simp add: zscale_spec_def zscale_steps_def trim_tenth_def flatten_def Let_def
          polyfit1_def upt_rec)
  ultimately show ?thesis by simp
qed

text \<open>
  C3: when the flattened array \<open>b\<close> is the flattened array \<open>a\<close> with not-a-number values
  inserted at arbitrary positions, \<open>zscale\<close> returns on \<open>b\<close> what it returns on \<open>a\<close>,
  the same pair or the same exception.
\<close>

theorem zscale_nan_insertion_invariant:
  assumes "nan_inserted (flatten a) (flatten b)"
  shows "zscale b contrast = zscale a contrast"
  using assms by (intro zscale_cong nan_inserted_drop_nan)

theorem zscale_nan_insertion_invariant_witness:
  "zscale [[NaN, Finite 3, Finite 0, NaN], [Finite 7, Finite 1, Finite 10, Finite 4],
           [NaN, Finite 8, Finite 2, Finite 5], [Finite 9, Finite 6, NaN, NaN]] (1 / 4)
     = zscale [[Finite 3, Finite 0, Finite 7, Finite 1, Finite 10, Finite 4, Finite 8, Finite 2,
                Finite 5, Finite 9, Finite 6]] (1 / 4)
   \<and> zscale [[NaN, Finite 3, Finite 0, NaN], [Finite 7, Finite 1, Finite 10, Finite 4],
             [NaN, Finite 8, Finite 2, Finite 5], [Finite 9, Finite 6, NaN, NaN]] (1 / 4)
     = Inr (- 7, 25)"
proof -
  let ?a = "[[Finite 3, Finite 0, Finite 7, Finite 1, Finite 10, Finite 4, Finite 8, Finite 2,
              Finite 5, Finite 9, Finite 6]]"
  let ?b = "[[NaN, Finite 3, Finite 0, NaN], [Finite 7, Finite 1, Finite 10, Finite 4],
             [NaN, Finite 8, Finite 2, Finite 5], [Finite 9, Finite 6, NaN, NaN]]"
  have "nan_inserted (flatten ?a) (flatten ?b)"
    by (simp add: flatten_def nan_inserted.intros)
  then have eq: "zscale ?b (1 / 4) = zscale ?a (1 / 4)"
    by (rule zscale_nan_insertion_invariant)
  have "zscale ?a (1 / 4) = Inr (- 7, 25)"
    by (simp add: zscale_def zscale_subset_eq flatten_def Let_def i_midpoint_of_div
          polyfit1_def arange_minus_def upt_rec)
  with eq show ?thesis by simp
qed

text \<open>
  C4, as amended: for every input whose trimmed subset has fewer than two elements, be
  it the subset that the source's slice leaves or the one that trimming a tenth at each
  end leaves, \<open>zscale\<close> raises \<open>IndexError\<close>, for every contrast; \<open>display2dArray\<close>
  does not catch it and raises it too whenever the backend can be imported.
\<close>

theorem zscale_degenerate_IndexError:
  assumes "length (zscale_subset input_img) < 2
             \<or> length (trim_tenth (sort (drop_nan (flatten input_img)))) < 2"
  shows "zscale input_img contrast = Inl IndexError
         \<and> (importable plt \<longrightarrow>
              display2dArray plt input_img title showBars ext = Inl IndexError)"
proof -
  have "zscale_subset input_img = []"
    using assms
  proof
    assume "length (zscale_subset input_img) < 2"
    then show ?thesis by (intro zscale_subset_small) simp
  next
    assume "length (trim_tenth (sort (drop_nan (flatten input_img)))) < 2"
    then have "length (sort (drop_nan (flatten input_img))) < 10"
      by (intro trim_tenth_small) simp
    then show ?thesis by (simp add: zscale_subset_eq Let_def)
  qed
  then have z: "zscale input_img c = Inl IndexError" for c
    by (rule zscale_empty_subset)
  then show ?thesis by (simp add: display2dArray_def)
qed

theorem zscale_degenerate_IndexError_witness:
  "zscale [[NaN, NaN], [NaN, NaN]] (1 / 4) = Inl IndexError
   \<and> display2dArray
        \<lparr>importable = True, figures_made = 0, figsize = (8, 5 / 2),
         current_subplot = (1, 1, 1), drawn = []\<rparr>
        [[NaN, NaN], [NaN, NaN]] ''Data'' True None = Inl IndexError"
  using zscale_degenerate_IndexError
    [of "[[NaN, NaN], [NaN, NaN]]" "1 / 4"
        "\<lparr>importable = True, figures_made = 0, figsize = (8, 5 / 2),
          current_subplot = (1, 1, 1), drawn = []\<rparr>" "''Data''" True None]
  by (simp add: zscale_subset_eq flatten_def Let_def)

text \<open>
  C4 as stated fails: on three samples, too few to trim, the exception is \<open>IndexError\<close>
  and not \<open>InvalidInput\<close>.
\<close>

theorem zscale_InvalidInput_counterexample:
  "length (zscale_subset [[Finite 1, Finite 2, Finite 3]]) < 2
   \<and> zscale [[Finite 1, Finite 2, Finite 3]] (1 / 4) = Inl IndexError
   \<and> zscale [[Finite 1, Finite 2, Finite 3]] (1 / 4) \<noteq> Inl InvalidInput"
  by (simp add: zscale_def zscale_subset_eq flatten_def Let_def)

section \<open>The model of the fit\<close>

text \<open>
  The line that \<open>polyfit1\<close> returns satisfies the normal equations, so no other line has
  a smaller sum of squared residuals: the model is a least-squares fit. On the abscissae
  of \<open>zscale\<close>, which are distinct, the fit is never rank deficient.
\<close>

lemma sum_list_zip_nth:
  assumes "length xs = length ys"
  shows "sum_list (map f (zip xs ys)) = (\<Sum>i = 0..<length xs. f (xs ! i, ys ! i))"
proof -
  have "sum_list (map f (zip xs ys)) = (\<Sum>i = 0..<length (map f (zip xs ys)). map f (zip xs ys) ! i)"
    by (rule sum_list_sum_nth)
  also have "\<dots> = (\<Sum>i = 0..<length xs. f (xs ! i, ys ! i))"
    using assms by (intro sum.cong) auto
  finally show ?thesis .
qed

lemma over_common_denominator:
  fixes p q s m t D :: real
  assumes "D \<noteq> 0"
  shows "p / D * s + q / D * m - t = (p * s + q * m - t * D) / D"
  using assms by (simp add: field_simps)

lemma normal_equations_algebra:
  fixes n sx sy sxx sxy :: real
  assumes "n * sxx - sx * sx \<noteq> 0"
  shows "(n * sxy - sx * sy) / (n * sxx - sx * sx) * sx
           + (sy * sxx - sx * sxy) / (n * sxx - sx * sx) * n - sy = 0"
    and "(n * sxy - sx * sy) / (n * sxx - sx * sx) * sxx
           + (sy * sxx - sx * sxy) / (n * sxx - sx * sx) * sx - sxy = 0"
proof -
  have "(n * sxy - sx * sy) * sx + (sy * sxx - sx * sxy) * n - sy * (n * sxx - sx * sx) = 0"
    by (simp add: algebra_simps)
  then show "(n * sxy - sx * sy) / (n * sxx - sx * sx) * sx
           + (sy * sxx - sx * sxy) / (n * sxx - sx * sx) * n - sy = 0"
    by (simp only: over_common_denominator [OF assms] div_0)
  have "(n * sxy - sx * sy) * sxx + (sy * sxx - sx * sxy) * sx - sxy * (n * sxx - sx * sx) = 0"
    by (simp add: algebra_simps)
  then show "(n * sxy - sx * sy) / (n * sxx - sx * sx) * sxx
           + (sy * sxx - sx * sxy) / (n * sxx - sx * sx) * sx - sxy = 0"
    by (simp only: over_common_denominator [OF assms] div_0)
qed

lemma zero_spread_constant:
  fixes x :: "nat \<Rightarrow> real"
  assumes n: "0 < n"
    and d: "real n * (\<Sum>i = 0..<n. x i * x i) - (\<Sum>i = 0..<n. x i) * (\<Sum>i = 0..<n. x i) = 0"
    and i: "i < n"
  shows "x i = (\<Sum>i = 0..<n. x i) / real n"
proof -
  define S where "S = (\<Sum>i = 0..<n. x i)"
  define Q where "Q = (\<Sum>i = 0..<n. x i * x i)"
  define c where "c = S / real n"
  have d': "real n * Q - S * S = 0" using d by (simp only: S_def Q_def)
  have "(\<Sum>i = 0..<n. (x i - c) * (x i - c)) = Q - 2 * c * S + real n * c * c"
    unfolding S_def Q_def
    by (simp add: algebra_simps sum.distrib sum_subtractf sum_distrib_left)
  also have "\<dots> = (real n * Q - S * S) / real n"
    using n by (simp add: c_def field_simps)
  also have "\<dots> = 0" by (simp only: d' div_0)
  finally have "\<forall>i \<in> {0..<n}. (x i - c) * (x i - c) = 0"
    by (subst (asm) sum_nonneg_eq_0_iff) auto
  with i have "x i = c" by auto
  then show ?thesis by (simp only: c_def S_def)
qed

lemma normal_equations:
  assumes fit: "polyfit1 xs ys = Inr (a, b)"
  shows "(\<Sum>i = 0..<length xs. a * xs ! i + b - ys ! i) = 0"
    and "(\<Sum>i = 0..<length xs. (a * xs ! i + b - ys ! i) * xs ! i) = 0"
proof -
  let ?n = "length xs"
  let ?sx = "\<Sum>i = 0..<?n. xs ! i"
  let ?sy = "\<Sum>i = 0..<?n. ys ! i"
  let ?sxx = "\<Sum>i = 0..<?n. xs ! i * xs ! i"
  let ?sxy = "\<Sum>i = 0..<?n. xs ! i * ys ! i"
  let ?d = "real ?n * ?sxx - ?sx * ?sx"
  from fit have len: "length xs = length ys" and ne: "xs \<noteq> []"
    by (auto simp: polyfit1_def Let_def split: if_splits)
  from ne have n: "real ?n \<noteq> 0" by simp
  have sx: "sum_list xs = ?sx" by (rule sum_list_sum_nth)
  have sy: "sum_list ys = ?sy" using len by (simp add: sum_list_sum_nth [of ys])
  have sxx: "sum_list (map (\<lambda>x. x * x) xs) = ?sxx"
    by (simp add: sum_list_sum_nth [of "map (\<lambda>x. x * x) xs"])
  have sxy: "sum_list (map (\<lambda>(x, y). x * y) (zip xs ys)) = ?sxy"
    using sum_list_zip_nth [OF len, of "\<lambda>(x, y). x * y"] by simp
  have ab: "(a, b) = (if ?d = 0 then (0, ?sy / real ?n)
                      else ((real ?n * ?sxy - ?sx * ?sy) / ?d, (?sy * ?sxx - ?sx * ?sxy) / ?d))"
    using fit len ne by (simp add: polyfit1_def Let_def sx sy sxx sxy split: if_splits)
  have e1: "(\<Sum>i = 0..<?n. a * xs ! i + b - ys ! i) = a * ?sx + b * real ?n - ?sy"
    by (simp add: sum.distrib sum_subtractf sum_distrib_left)
  have e2: "(\<Sum>i = 0..<?n. (a * xs ! i + b - ys ! i) * xs ! i) = a * ?sxx + b * ?sx - ?sxy"
    by (simp add: algebra_simps sum.distrib sum_subtractf sum_distrib_left)
  show "(\<Sum>i = 0..<?n. a * xs ! i + b - ys ! i) = 0"
    and "(\<Sum>i = 0..<?n. (a * xs ! i + b - ys ! i) * xs ! i) = 0"
  proof -
    show g1: "(\<Sum>i = 0..<?n. a * xs ! i + b - ys ! i) = 0"
    proof (cases "?d = 0")
      case True
      with ab have a: "a = 0" and b: "b = ?sy / real ?n" by auto
      have "a * ?sx + b * real ?n - ?sy = 0" using n by (simp add: a b)
      then show ?thesis by (simp only: e1)
    next
      case False
      with ab have a: "a = (real ?n * ?sxy - ?sx * ?sy) / ?d" and b: "b = (?sy * ?sxx - ?sx * ?sxy) / ?d"
        by auto
      have "a * ?sx + b * real ?n - ?sy = 0"
        unfolding a b by (rule normal_equations_algebra(1) [OF False])
      then show ?thesis by (simp only: e1)
    qed
    show "(\<Sum>i = 0..<?n. (a * xs ! i + b - ys ! i) * xs ! i) = 0"
    proof (cases "?d = 0")
      case True
      with ab have a: "a = 0" and b: "b = ?sy / real ?n" by auto
      define c where "c = ?sx / real ?n"
      have pos: "0 < ?n" using ne by simp
      have xc: "xs ! i = c" if "i < ?n" for i
        unfolding c_def by (rule zero_spread_constant [OF pos True that])
      have "?sxy = (\<Sum>i = 0..<?n. c * ys ! i)"
        by (intro sum.cong) (auto simp: xc)
      also have "\<dots> = c * ?sy" by (simp add: sum_distrib_left)
      finally have "?sxy = ?sx * ?sy / real ?n" by (simp add: c_def)
      then have "a * ?sxx + b * ?sx - ?sxy = 0" by (simp add: a b)
      then show ?thesis by (simp only: e2)
    next
      case False
      with ab have a: "a = (real ?n * ?sxy - ?sx * ?sy) / ?d" and b: "b = (?sy * ?sxx - ?sx * ?sxy) / ?d"
        by auto
      have "a * ?sxx + b * ?sx - ?sxy = 0"
        unfolding a b by (rule normal_equations_algebra(2) [OF False])
      then show ?thesis by (simp only: e2)
    qed
  qed
qed

lemma polyfit1_least_squares:
  assumes fit: "polyfit1 xs ys = Inr (a, b)"
  shows "residual_sq xs ys a b \<le> residual_sq xs ys a' b'"
proof -
  let ?n = "length xs"
  let ?r = "\<lambda>i. a * xs ! i + b - ys ! i"
  let ?e = "\<lambda>i. (a' - a) * xs ! i + (b' - b)"
  from fit have len: "length xs = length ys"
    by (auto simp: polyfit1_def Let_def split: if_splits)
  have res: "residual_sq xs ys u v = (\<Sum>i = 0..<?n. (u * xs ! i + v - ys ! i) * (u * xs ! i + v - ys ! i))"
    for u v
    using sum_list_zip_nth [OF len, of "\<lambda>(x, y). (u * x + v - y) * (u * x + v - y)"]
    by (simp add: residual_sq_def)
  have cross: "(\<Sum>i = 0..<?n. ?r i * ?e i) = 0"
  proof -
    have "(\<Sum>i = 0..<?n. ?r i * ?e i)
            = (a' - a) * (\<Sum>i = 0..<?n. ?r i * xs ! i) + (b' - b) * (\<Sum>i = 0..<?n. ?r i)"
      by (simp add: sum_distrib_left sum.distrib [symmetric] algebra_simps)
    then show ?thesis using normal_equations [OF fit] by simp
  qed
  have "residual_sq xs ys a' b' = (\<Sum>i = 0..<?n. (?r i + ?e i) * (?r i + ?e i))"
    unfolding res by (intro sum.cong) (auto simp: algebra_simps)
  also have "\<dots> = (\<Sum>i = 0..<?n. ?r i * ?r i) + 2 * (\<Sum>i = 0..<?n. ?r i * ?e i)
                    + (\<Sum>i = 0..<?n. ?e i * ?e i)"
    by (simp add: sum_distrib_left sum.distrib [symmetric] algebra_simps)
  also have "\<dots> = residual_sq xs ys a b + (\<Sum>i = 0..<?n. ?e i * ?e i)"
    by (simp add: cross res)
  finally have "residual_sq xs ys a' b' = residual_sq xs ys a b + (\<Sum>i = 0..<?n. ?e i * ?e i)" .
  moreover have "0 \<le> (\<Sum>i = 0..<?n. ?e i * ?e i)" by (intro sum_nonneg) simp
  ultimately show ?thesis by simp
qed

lemma arange_minus_full_rank:
  assumes "2 \<le> n"
  shows "real n * sum_list (map (\<lambda>x. x * x) (arange_minus n m))
           - sum_list (arange_minus n m) * sum_list (arange_minus n m) \<noteq> 0"
proof
  let ?x = "\<lambda>i. real i - real m"
  assume "real n * sum_list (map (\<lambda>x. x * x) (arange_minus n m))
            - sum_list (arange_minus n m) * sum_list (arange_minus n m) = 0"
  then have d: "real n * (\<Sum>i = 0..<n. ?x i * ?x i) - (\<Sum>i = 0..<n. ?x i) * (\<Sum>i = 0..<n. ?x i) = 0"
    by (simp only: sum_list_arange_minus sum_list_sq_arange_minus)
  have n0: "0 < n" and n1: "1 < n" using assms by simp_all
  have "?x 0 = (\<Sum>i = 0..<n. ?x i) / real n"
    by (rule zero_spread_constant [OF n0 d n0])
  moreover have "?x 1 = (\<Sum>i = 0..<n. ?x i) / real n"
    by (rule zero_spread_constant [OF n0 d n1])
  ultimately have "?x 0 = ?x 1" by (simp only:)
  then show False by simp
qed

lemma zscale_fit_full_rank:
  assumes "zscale_subset img \<noteq> []"
  shows "real (length (zscale_subset img))
           * sum_list (map (\<lambda>x. x * x) (arange_minus (length (zscale_subset img)) m))
         - sum_list (arange_minus (length (zscale_subset img)) m)
           * sum_list (arange_minus (length (zscale_subset img)) m) \<noteq> 0"
proof -
  have "8 \<le> length (zscale_subset img)"
    using assms zscale_subset_small [of img] by (cases "length (zscale_subset img) < 8") auto
  then have "2 \<le> length (zscale_subset img)" by simp
  then show ?thesis by (rule arange_minus_full_rank)
qed

section \<open>Properties of the display functions\<close>

text \<open>
  On an array with at least ten numbers \<open>zscale\<close> returns, so \<open>display2dArray\<close> draws
  one panel into the current subplot when the backend can be imported.
\<close>

lemma zscale_returns:
  assumes "displayable arr" and "contrast \<noteq> 0"
  shows "\<exists>z1 z2. zscale arr contrast = Inr (z1, z2)"
proof -
  have "8 \<le> length (zscale_subset arr)"
    using assms(1) by (intro zscale_subset_large(2)) (simp add: displayable_def)
  then have "zscale_subset arr \<noteq> []" by auto
  from zscale_value [OF this assms(2)] show ?thesis by blast
qed

lemma display2dArray_displayable:
  assumes "importable plt" and "displayable arr"
  shows "\<exists>p. display2dArray plt arr title showBars ext
                = Inr (Some p, plt\<lparr>drawn := drawn plt @ [p]\<rparr>)
             \<and> pn_subplot p = current_subplot plt \<and> pn_title p = title
             \<and> pn_array p = arr \<and> pn_extent p = ext"
proof -
  obtain z1 z2 where "zscale arr (1 / 4) = Inr (z1, z2)"
    using zscale_returns [OF assms(2), of "1 / 4"] by auto
  then show ?thesis using assms(1) by (simp add: display2dArray_def Let_def)
qed

lemma cutout_panel_ok:
  assumes "importable plt" and "cutout_ok asHeavy fp exposure"
  shows "\<exists>p c. cutout asHeavy fp (fp_BBox fp) exposure = Inr c
           \<and> cutout_panel plt asHeavy fp (fp_BBox fp) exposure k title ext
               = Inr (Some p, plt\<lparr>current_subplot := (1, 3, k), drawn := drawn plt @ [p]\<rparr>)
           \<and> pn_subplot p = (1, 3, k) \<and> pn_title p = title
           \<and> pn_array p = getArray c \<and> pn_extent p = Some ext"
proof -
  obtain c where c: "cutout asHeavy fp (fp_BBox fp) exposure = Inr c"
    and d: "displayable (getArray c)"
    using assms(2) by (auto simp: cutout_ok_def split: sum.splits)
  have "importable (plt_subplot (1, 3, k) plt)"
    using assms(1) by (simp add: plt_subplot_def)
  from display2dArray_displayable [OF this d, of title True "Some ext"] c
  show ?thesis by (auto simp: cutout_panel_def plt_subplot_def)
qed


lemma optional_panel:
  assumes "importable plt" and "list_all (cutout_ok asHeavy fp) (supplied opt)"
  shows "\<exists>x plt' ps.
           (case opt of
              None \<Rightarrow> Inr (None, plt)
            | Some e \<Rightarrow> cutout_panel plt asHeavy fp (fp_BBox fp) e k title ext) = Inr (x, plt')
           \<and> importable plt' \<and> drawn plt' = drawn plt @ ps
           \<and> map (\<lambda>p. (pn_subplot p, pn_title p, pn_extent p)) ps
               = map (\<lambda>e. ((1, 3, k), title, Some ext)) (supplied opt)
           \<and> list_all2 (\<lambda>p e. \<exists>c. cutout asHeavy fp (fp_BBox fp) e = Inr c \<and> pn_array p = getArray c)
               ps (supplied opt)"
proof (cases opt)
  case None
  then show ?thesis using assms(1) by (simp add: supplied_def)
next
  case (Some e)
  then have "cutout_ok asHeavy fp e" using assms(2) by (simp add: supplied_def)
  from cutout_panel_ok [OF assms(1) this, of k title ext]
  obtain p c where
    "cutout asHeavy fp (fp_BBox fp) e = Inr c"
    "cutout_panel plt asHeavy fp (fp_BBox fp) e k title ext
       = Inr (Some p, plt\<lparr>current_subplot := (1, 3, k), drawn := drawn plt @ [p]\<rparr>)"
    "pn_subplot p = (1, 3, k)" "pn_title p = title" "pn_array p = getArray c"
    "pn_extent p = Some ext"
    by blast
  then show ?thesis
    using Some assms(1)
    by (intro exI [of _ "Some p"]
          exI [of _ "plt\<lparr>current_subplot := (1, 3, k), drawn := drawn plt @ [p]\<rparr>"]
          exI [of _ "[p]"])
       (simp add: supplied_def)
qed

lemma displayCutouts_panels:
  assumes imp: "importable plt"
    and ok1: "cutout_ok asHeavy (getFootprint source) exposure"
    and ok2: "list_all (cutout_ok asHeavy (getFootprint source)) (supplied posImage)"
    and ok3: "list_all (cutout_ok asHeavy (getFootprint source)) (supplied negImage)"
  shows "\<exists>fig plt'.
           displayCutouts plt source exposure posImage negImage asHeavy title fsize
             = Inr (Some fig, plt')
           \<and> map (\<lambda>p. (pn_subplot p, pn_title p, pn_extent p)) (drawn plt')
               = ((1, 3, 1), title @ '' Diffim'', Some (extent_of (fp_BBox (getFootprint source))))
                 # map (\<lambda>e. ((1, 3, 2), title @ '' Pos'',
                               Some (extent_of (fp_BBox (getFootprint source))))) (supplied posImage)
                 @ map (\<lambda>e. ((1, 3, 3), title @ '' Neg'',
                               Some (extent_of (fp_BBox (getFootprint source))))) (supplied negImage)
           \<and> list_all2
                (\<lambda>p e. \<exists>c. cutout asHeavy (getFootprint source) (fp_BBox (getFootprint source)) e
                               = Inr c \<and> pn_array p = getArray c)
                (drawn plt') (exposure # supplied posImage @ supplied negImage)"
proof -
  let ?fp = "getFootprint source"
  let ?ext = "extent_of (fp_BBox ?fp)"
  let ?R = "\<lambda>p e. \<exists>c. cutout asHeavy ?fp (fp_BBox ?fp) e = Inr c \<and> pn_array p = getArray c"
  let ?D = "\<lambda>p. (pn_subplot p, pn_title p, pn_extent p)"
  obtain fig plt1 where fig: "plt_figure fsize plt = (fig, plt1)"
    by (cases "plt_figure fsize plt") auto
  then have imp1: "importable plt1" and d1: "drawn plt1 = []"
    using imp by (auto simp: plt_figure_def)
  from cutout_panel_ok [OF imp1 ok1, of 1 "title @ '' Diffim''" ?ext] d1
  obtain p1 c1 plt2 where
    s1: "cutout_panel plt1 asHeavy ?fp (fp_BBox ?fp) exposure 1 (title @ '' Diffim'') ?ext
           = Inr (Some p1, plt2)" and
    imp2: "importable plt2" and d2: "drawn plt2 = [p1]" and
    D1: "?D p1 = ((1, 3, 1), title @ '' Diffim'', Some ?ext)" and
    R1: "?R p1 exposure"
    using imp1 by fastforce
  from optional_panel [OF imp2 ok2, of 2 "title @ '' Pos''" ?ext]
  obtain x2 plt3 ps2 where
    s2: "(case posImage of None \<Rightarrow> Inr (None, plt2)
          | Some e \<Rightarrow> cutout_panel plt2 asHeavy ?fp (fp_BBox ?fp) e 2 (title @ '' Pos'') ?ext)
           = Inr (x2, plt3)" and
    imp3: "importable plt3" and d3: "drawn plt3 = drawn plt2 @ ps2" and
    D2: "map ?D ps2 = map (\<lambda>e. ((1, 3, 2), title @ '' Pos'', Some ?ext)) (supplied posImage)" and
    R2: "list_all2 ?R ps2 (supplied posImage)"
    by blast
  from optional_panel [OF imp3 ok3, of 3 "title @ '' Neg''" ?ext]
  obtain x3 plt4 ps3 where
    s3: "(case negImage of None \<Rightarrow> Inr (None, plt3)
          | Some e \<Rightarrow> cutout_panel plt3 asHeavy ?fp (fp_BBox ?fp) e 3 (title @ '' Neg'') ?ext)
           = Inr (x3, plt4)" and
    d4: "drawn plt4 = drawn plt3 @ ps3" and
    D3: "map ?D ps3 = map (\<lambda>e. ((1, 3, 3), title @ '' Neg'', Some ?ext)) (supplied negImage)" and
    R3: "list_all2 ?R ps3 (supplied negImage)"
    by blast
  have "displayCutouts plt source exposure posImage negImage asHeavy title fsize
          = Inr (Some fig, plt4)"
    using imp fig s1 s2 s3
    by (simp add: displayCutouts_def Let_def)
  moreover have "drawn plt4 = p1 # ps2 @ ps3" by (simp add: d4 d3 d2)
  moreover have "list_all2 ?R (p1 # ps2 @ ps3) (exposure # supplied posImage @ supplied negImage)"
    using R1 R2 R3 by (simp add: list_all2_appendI)
  ultimately show ?thesis using D1 D2 D3 by simp
qed

text \<open>
  Writing a heavy footprint's values into an array changes the footprint's pixels and no
  other pixel.
\<close>

lemma those_map_Some:
  "those (map g ps) = Some vals \<Longrightarrow> vals = map (\<lambda>p. the (g p)) ps \<and> (\<forall>p \<in> set ps. g p \<noteq> None)"
proof (induction ps arbitrary: vals)
  case Nil
  then show ?case by simp
next
  case (Cons q ps)
  then show ?case by (auto split: option.splits)
qed

lemma getPixel_setPixel:
  assumes "setPixel box dest q v = Some dest'"
  shows "getPixel box dest' p = (if p = q then Some v else getPixel box dest p)"
proof -
  let ?r = "\<lambda>p. nat (snd p - getMinY box)"
  let ?c = "\<lambda>p. nat (fst p - getMinX box)"
  from assms have q: "containsI box q" "?r q < length dest" "?c q < length (dest ! ?r q)"
    and dest': "dest' = dest[?r q := (dest ! ?r q)[?c q := v]]"
    by (auto simp: setPixel_def Let_def split: if_splits)
  show ?thesis
  proof (cases "containsI box p")
    case False
    then show ?thesis using q(1) by (auto simp: getPixel_def Let_def)
  next
    case True
    show ?thesis
    proof (cases "p = q")
      case True
      then show ?thesis using q by (simp add: getPixel_def Let_def dest')
    next
      case False
      with True q(1) have "?r p \<noteq> ?r q \<or> ?c p \<noteq> ?c q"
        by (auto simp: containsI_def getBeginX_def getBeginY_def prod_eq_iff)
      then have cell: "dest' ! ?r p ! ?c p = dest ! ?r p ! ?c p" if "?r p < length dest"
        using that by (cases "?r p = ?r q") (simp_all add: dest')
      have row: "length (dest' ! ?r p) = length (dest ! ?r p)" if "?r p < length dest"
        using that by (cases "?r p = ?r q") (simp_all add: dest')
      have len: "length dest' = length dest" by (simp add: dest')
      show ?thesis
      proof (cases "?r p < length dest")
        case True
        from cell [OF True] row [OF True] len False show ?thesis
          by (simp add: getPixel_def Let_def)
      next
        case False
        with len \<open>p \<noteq> q\<close> show ?thesis by (simp add: getPixel_def Let_def)
      qed
    qed
  qed
qed

lemma expand_loop_same:
  "expand_loop box dest (zip ps (map f ps)) = Some dest'
     \<Longrightarrow> getPixel box dest' p = (if p \<in> set ps then Some (f p) else getPixel box dest p)"
proof (induction ps arbitrary: dest)
  case Nil
  then show ?case by simp
next
  case (Cons q ps)
  from Cons.prems obtain d1 where
    s: "setPixel box dest q (f q) = Some d1" and
    l: "expand_loop box d1 (zip ps (map f ps)) = Some dest'"
    by (auto split: option.splits)
  show ?case
    using Cons.IH [OF l] getPixel_setPixel [OF s, of p] by auto
qed

lemma getPixel_fill:
  "containsI box p \<Longrightarrow> getPixel box (getArray (ImageF_fill box v)) p = Some v"
  by (auto simp: getPixel_def ImageF_fill_def Let_def containsI_def getBeginX_def getBeginY_def
        getEndX_def getEndY_def)

lemma heavy_cutout:
  assumes "cutout True fp (fp_BBox fp) exposure = Inr c"
  shows "getBBox c = fp_BBox fp \<and> heavy_cutout_of fp (getMaskedImage exposure) (getArray c)"
proof -
  let ?mi = "getMaskedImage exposure"
  let ?g = "getPixel (mi_BBox ?mi) (mi_image ?mi)"
  let ?ps = "footprint_pixels fp"
  from assms obtain hfp where
    h: "HeavyFootprintF fp ?mi = Inr hfp" and
    g: "getHeavyFootprintSubimage hfp NaN 0 = Inr c"
    by (auto simp: cutout_def split: sum.splits)
  from h obtain vals where
    t: "those (map ?g ?ps) = Some vals" and hfp: "hfp = fp\<lparr>heavy := Some vals\<rparr>"
    by (auto simp: HeavyFootprintF_def split: if_splits option.splits)
  from those_map_Some [OF t]
  have vals: "vals = map (\<lambda>p. the (?g p)) ?ps" and some: "\<forall>p \<in> set ?ps. ?g p \<noteq> None"
    by auto
  have ps: "footprint_pixels (fp\<lparr>heavy := Some vals\<rparr>) = ?ps"
    by (simp add: footprint_pixels_def)
  from g obtain arr where
    e: "expand_loop (fp_BBox fp) (getArray (ImageF_fill (fp_BBox fp) NaN)) (zip ?ps vals) = Some arr"
    and c: "c = \<lparr>getBBox = fp_BBox fp, getArray = arr\<rparr>"
    by (auto simp: getHeavyFootprintSubimage_def expandArray_def hfp ps Let_def ImageF_fill_def
          split: if_splits option.splits sum.splits)
  have "getPixel (fp_BBox fp) arr p
          = (if p \<in> set ?ps then Some (the (?g p))
             else getPixel (fp_BBox fp) (getArray (ImageF_fill (fp_BBox fp) NaN)) p)" for p
    using e unfolding vals by (rule expand_loop_same)
  then have "heavy_cutout_of fp ?mi arr"
    using some by (auto simp: heavy_cutout_of_def getPixel_fill)
  then show ?thesis by (simp add: c)
qed

text \<open>
  The extraction of a heavy cutout succeeds when the footprint's pixels lie inside its
  bounding box, the bounding box lies inside the exposure, and the data plane has the
  shape of the exposure's bounding box.
\<close>

lemma getPixel_in_shape:
  assumes "has_shape box arr" and "containsI box p"
  shows "getPixel box arr p \<noteq> None"
proof -
  have r: "nat (snd p - getMinY box) < length arr"
    using assms by (auto simp: has_shape_def containsI_def getBeginY_def getEndY_def)
  then have "arr ! nat (snd p - getMinY box) \<in> set arr" by simp
  then have "length (arr ! nat (snd p - getMinY box)) = nat (getWidth box)"
    using assms(1) by (auto simp: has_shape_def list_all_iff)
  then have "nat (fst p - getMinX box) < length (arr ! nat (snd p - getMinY box))"
    using assms(2) by (auto simp: containsI_def getBeginX_def getEndX_def)
  with r assms(2) show ?thesis by (simp add: getPixel_def Let_def)
qed

lemma setPixel_in_shape:
  assumes "has_shape box arr" and "containsI box p"
  shows "\<exists>arr'. setPixel box arr p v = Some arr' \<and> has_shape box arr'"
proof -
  let ?r = "nat (snd p - getMinY box)"
  let ?c = "nat (fst p - getMinX box)"
  from getPixel_in_shape [OF assms]
  have r: "?r < length arr" and c: "?c < length (arr ! ?r)"
    by (auto simp: getPixel_def Let_def split: if_splits)
  have "has_shape box (arr[?r := (arr ! ?r)[?c := v]])"
    using assms(1) r
    by (auto simp: has_shape_def list_all_iff dest!: set_update_subset_insert [THEN subsetD])
  with r c assms(2) show ?thesis by (simp add: setPixel_def Let_def)
qed

lemma expand_loop_in_shape:
  assumes "has_shape box dest" and "list_all (containsI box) (map fst pvs)"
  shows "expand_loop box dest pvs \<noteq> None"
  using assms
proof (induction pvs arbitrary: dest)
  case Nil
  show ?case by simp
next
  case (Cons pv pvs)
  obtain p v where pv: "pv = (p, v)" by (cases pv)
  with Cons.prems have "containsI box p" by simp
  from setPixel_in_shape [OF Cons.prems(1) this, of v]
  obtain d1 where s: "setPixel box dest p v = Some d1" and h: "has_shape box d1" by blast
  from Cons.IH [OF h] Cons.prems(2) have "expand_loop box d1 pvs \<noteq> None" by simp
  with s pv show ?case by simp
qed

lemma those_map_not_None:
  "(\<And>p. p \<in> set ps \<Longrightarrow> g p \<noteq> None) \<Longrightarrow> those (map g ps) \<noteq> None"
  by (induction ps) (auto split: option.splits)

lemma has_shape_fill: "has_shape box (getArray (ImageF_fill box v))"
  by (simp add: has_shape_def ImageF_fill_def list_all_iff)

lemma containsBox_containsI:
  assumes "containsBox outer inner" and "containsI inner p"
  shows "containsI outer p"
  using assms
  by (auto simp: containsBox_def containsI_def isEmpty_def getBeginX_def getBeginY_def
        getEndX_def getEndY_def)

lemma heavy_cutout_succeeds:
  assumes inside: "containsBox (mi_BBox (getMaskedImage exposure)) (fp_BBox fp)"
    and pix: "list_all (containsI (fp_BBox fp)) (footprint_pixels fp)"
    and shape: "has_shape (mi_BBox (getMaskedImage exposure)) (mi_image (getMaskedImage exposure))"
  shows "\<exists>c. cutout True fp (fp_BBox fp) exposure = Inr c"
proof -
  let ?mi = "getMaskedImage exposure"
  let ?ps = "footprint_pixels fp"
  have "those (map (getPixel (mi_BBox ?mi) (mi_image ?mi)) ?ps) \<noteq> None"
  proof (rule those_map_not_None)
    fix p assume "p \<in> set ?ps"
    with pix have "containsI (fp_BBox fp) p" by (simp add: list_all_iff)
    from containsBox_containsI [OF inside this]
    show "getPixel (mi_BBox ?mi) (mi_image ?mi) p \<noteq> None"
      by (rule getPixel_in_shape [OF shape])
  qed
  then obtain vals where t: "those (map (getPixel (mi_BBox ?mi) (mi_image ?mi)) ?ps) = Some vals"
    by auto
  from those_map_Some [OF t] have len: "length vals = length ?ps" by simp
  have h: "HeavyFootprintF fp ?mi = Inr (fp\<lparr>heavy := Some vals\<rparr>)"
    using inside t by (simp add: HeavyFootprintF_def)
  have ps: "footprint_pixels (fp\<lparr>heavy := Some vals\<rparr>) = ?ps"
    by (simp add: footprint_pixels_def)
  have "list_all (containsI (fp_BBox fp)) (map fst (zip ?ps vals))"
    using pix len by (simp add: list_all_iff)
  from expand_loop_in_shape [OF has_shape_fill this]
  obtain arr where
    "expand_loop (fp_BBox fp) (getArray (ImageF_fill (fp_BBox fp) NaN)) (zip ?ps vals) = Some arr"
    by auto
  then show ?thesis
    using h len by (simp add: cutout_def getHeavyFootprintSubimage_def expandArray_def ps)
qed

text \<open>The example data evaluated.\<close>

lemma ex_pixels:
  "footprint_pixels ex_footprint
     = [(0, 0), (1, 0), (2, 0), (3, 0), (4, 0), (0, 1), (1, 1), (2, 1), (3, 1), (4, 1)]"
  by (simp add: footprint_pixels_def ex_footprint_def span_pixels_def upto.simps)

lemma ex_heavy:
  "HeavyFootprintF ex_footprint (getMaskedImage ex_exposure)
     = Inr (ex_footprint\<lparr>heavy := Some [Finite 1, Finite 2, Finite 3, Finite 4, Finite 5,
                                         Finite 7, Finite 8, Finite 9, Finite 10, Finite 11]\<rparr>)"
  by (simp add: HeavyFootprintF_def ex_pixels ex_exposure_def ex_box_def ex_plane_def
        containsBox_def isEmpty_def getBeginX_def getBeginY_def getEndX_def getEndY_def
        getPixel_def containsI_def Let_def)
    (simp add: ex_footprint_def ex_box_def)

lemma ex_cutout_heavy:
  "cutout True ex_footprint (fp_BBox ex_footprint) ex_exposure
     = Inr \<lparr>getBBox = ex_box,
            getArray = [[Finite 1, Finite 2, Finite 3, Finite 4, Finite 5, NaN],
                        [Finite 7, Finite 8, Finite 9, Finite 10, Finite 11, NaN]]\<rparr>"
  apply (simp add: cutout_def ex_heavy getHeavyFootprintSubimage_def)
  apply (simp add: expandArray_def footprint_pixels_def span_pixels_def upto.simps ex_footprint_def
        ImageF_fill_def ex_box_def setPixel_def containsI_def Let_def
        getBeginX_def getBeginY_def getEndX_def getEndY_def eval_nat_numeral)
  done

lemma ex_cutout_plain:
  "cutout False ex_footprint (fp_BBox ex_footprint) ex_exposure
     = Inr \<lparr>getBBox = ex_box, getArray = ex_plane\<rparr>"
  by (simp add: cutout_def ImageF_sub_def getImage_def ex_exposure_def ex_footprint_def
        containsBox_def ex_box_def ex_plane_def)

lemma ex_cutout_ok: "cutout_ok asHeavy ex_footprint ex_exposure"
  by (cases asHeavy)
     (simp_all add: cutout_ok_def ex_cutout_heavy ex_cutout_plain displayable_def flatten_def
        ex_plane_def)

lemma zscale_ex_plane: "zscale ex_plane (1 / 4) = Inr (- 9, 27)"
  by (simp add: ex_plane_def zscale_def zscale_subset_eq flatten_def Let_def i_midpoint_of_div
        polyfit1_def arange_minus_def upt_rec)

lemma display2dArray_ex_plane:
  "importable plt \<Longrightarrow>
   display2dArray plt ex_plane title showBars ext
     = Inr (Some \<lparr>pn_subplot = current_subplot plt, pn_title = title, pn_array = ex_plane,
                  pn_extent = ext, pn_vmin = - 9, pn_vmax = 27, pn_colorbar = showBars\<rparr>,
            plt\<lparr>drawn := drawn plt @
               [\<lparr>pn_subplot = current_subplot plt, pn_title = title, pn_array = ex_plane,
                 pn_extent = ext, pn_vmin = - 9, pn_vmax = 27, pn_colorbar = showBars\<rparr>]\<rparr>)"
  by (simp add: display2dArray_def zscale_ex_plane Let_def)

text \<open>
  C5: when \<open>displayCutouts\<close> is called with heavy-footprint mode on, the backend can be
  imported and the extraction from every supplied exposure succeeds with a displayable
  array, it draws one panel for the primary exposure and one for each supplied secondary
  exposure, in this order, and in the array of each panel every pixel of the footprint's
  bounding box outside the footprint's pixel set is not-a-number and every pixel inside
  it carries the value of that exposure's data plane at its position.
\<close>

theorem displayCutouts_heavy_pixels:
  assumes "importable plt"
    and "cutout_ok True (getFootprint source) exposure"
    and "list_all (cutout_ok True (getFootprint source)) (supplied posImage)"
    and "list_all (cutout_ok True (getFootprint source)) (supplied negImage)"
  shows "\<exists>fig plt'.
           displayCutouts plt source exposure posImage negImage True title fsize
             = Inr (Some fig, plt')
           \<and> list_all2
                (\<lambda>p e. heavy_cutout_of (getFootprint source) (getMaskedImage e) (pn_array p))
                (drawn plt') (exposure # supplied posImage @ supplied negImage)"
proof -
  from displayCutouts_panels [OF assms, of title fsize]
  obtain fig plt' where
    r: "displayCutouts plt source exposure posImage negImage True title fsize
          = Inr (Some fig, plt')" and
    l: "list_all2
          (\<lambda>p e. \<exists>c. cutout True (getFootprint source) (fp_BBox (getFootprint source)) e = Inr c
                       \<and> pn_array p = getArray c)
          (drawn plt') (exposure # supplied posImage @ supplied negImage)"
    by (elim exE conjE)
  from l have "list_all2
                (\<lambda>p e. heavy_cutout_of (getFootprint source) (getMaskedImage e) (pn_array p))
                (drawn plt') (exposure # supplied posImage @ supplied negImage)"
    by (rule list_all2_mono) (auto dest: heavy_cutout)
  with r show ?thesis
    by (intro exI [of _ fig] exI [of _ plt'] conjI)
qed

theorem displayCutouts_heavy_pixels_witness:
  "\<exists>fig plt'.
     displayCutouts ex_plt ex_source ex_exposure (Some ex_exposure) None True ''src'' (8, 5 / 2)
       = Inr (Some fig, plt')
     \<and> list_all2
          (\<lambda>p e. heavy_cutout_of (getFootprint ex_source) (getMaskedImage e) (pn_array p))
          (drawn plt') (ex_exposure # supplied (Some ex_exposure) @ supplied None)"
  by (rule displayCutouts_heavy_pixels)
     (simp_all add: ex_plt_def ex_source_def ex_cutout_ok supplied_def)

text \<open>
  C8: when the backend can be imported and the extraction from every supplied exposure
  succeeds with a displayable array, \<open>displayCutouts\<close> returns a figure with exactly
  one panel plus one for each supplied secondary exposure: \<open>Diffim\<close> in subplot 1,
  \<open>Pos\<close> in subplot 2 if and only if \<open>posImage\<close> is supplied, \<open>Neg\<close> in subplot 3 if
  and only if \<open>negImage\<close> is supplied, each title prefixed and each extent the
  footprint's bounding box.
\<close>

theorem displayCutouts_panel_count:
  assumes "importable plt"
    and "cutout_ok asHeavyFootprint (getFootprint source) exposure"
    and "list_all (cutout_ok asHeavyFootprint (getFootprint source)) (supplied posImage)"
    and "list_all (cutout_ok asHeavyFootprint (getFootprint source)) (supplied negImage)"
  shows "\<exists>fig plt'.
           displayCutouts plt source exposure posImage negImage asHeavyFootprint title fsize
             = Inr (Some fig, plt')
           \<and> length (drawn plt') = 1 + length (supplied posImage) + length (supplied negImage)
           \<and> map (\<lambda>p. (pn_subplot p, pn_title p, pn_extent p)) (drawn plt')
               = ((1, 3, 1), title @ '' Diffim'', Some (extent_of (fp_BBox (getFootprint source))))
                 # map (\<lambda>e. ((1, 3, 2), title @ '' Pos'',
                               Some (extent_of (fp_BBox (getFootprint source))))) (supplied posImage)
                 @ map (\<lambda>e. ((1, 3, 3), title @ '' Neg'',
                               Some (extent_of (fp_BBox (getFootprint source))))) (supplied negImage)"
proof -
  from displayCutouts_panels [OF assms, of title fsize]
  obtain fig plt' where
    r: "displayCutouts plt source exposure posImage negImage asHeavyFootprint title fsize
          = Inr (Some fig, plt')" and
    m: "map (\<lambda>p. (pn_subplot p, pn_title p, pn_extent p)) (drawn plt')
               = ((1, 3, 1), title @ '' Diffim'', Some (extent_of (fp_BBox (getFootprint source))))
                 # map (\<lambda>e. ((1, 3, 2), title @ '' Pos'',
                               Some (extent_of (fp_BBox (getFootprint source))))) (supplied posImage)
                 @ map (\<lambda>e. ((1, 3, 3), title @ '' Neg'',
                               Some (extent_of (fp_BBox (getFootprint source))))) (supplied negImage)"
    by (elim exE conjE)
  from m have "length (map (\<lambda>p. (pn_subplot p, pn_title p, pn_extent p)) (drawn plt'))
                 = 1 + length (supplied posImage) + length (supplied negImage)"
    by simp
  then have n: "length (drawn plt') = 1 + length (supplied posImage) + length (supplied negImage)"
    by simp
  show ?thesis
    by (rule exI [of _ fig], rule exI [of _ plt']) (intro conjI r n m)
qed

theorem displayCutouts_panel_count_witness:
  "\<exists>fig plt'.
     displayCutouts ex_plt ex_source ex_exposure None (Some ex_exposure) False ''src'' (8, 5 / 2)
       = Inr (Some fig, plt')
     \<and> length (drawn plt') = 2
     \<and> map (\<lambda>p. (pn_subplot p, pn_title p, pn_extent p)) (drawn plt')
         = [((1, 3, 1), ''src Diffim'', Some (0, 6, 0, 2)),
            ((1, 3, 3), ''src Neg'', Some (0, 6, 0, 2))]"
proof -
  have fp: "getFootprint ex_source = ex_footprint" by (simp add: ex_source_def)
  have ext: "extent_of (fp_BBox ex_footprint) = (0, 6, 0, 2)"
    by (simp add: extent_of_def ex_footprint_def ex_box_def getBeginX_def getBeginY_def
          getEndX_def getEndY_def)
  have imp: "importable ex_plt" by (simp add: ex_plt_def)
  from displayCutouts_panel_count
         [of ex_plt False ex_source ex_exposure None "Some ex_exposure" "''src''" "(8, 5 / 2)"]
  show ?thesis by (auto simp: imp fp ext ex_cutout_ok supplied_def)
qed

text \<open>What \<open>displayExposure\<close> does with its argument \<open>showVariance\<close>.\<close>

lemma displayExposure_showVariance_ignored:
  "displayExposure plt exposure showMasks showVariance showPsf showBars width height
     = displayExposure plt exposure showMasks (\<not> showVariance) showPsf showBars width height"
  by (simp add: displayExposure_def)

lemma displayExposure_no_Psf:
  "displayExposure plt exposure showMasks showVariance False showBars width height
     = displayMaskedImage plt (getMaskedImage exposure) showMasks True showBars width height"
  by (auto simp: displayExposure_def displayMaskedImage_def split: sum.splits)

text \<open>
  C9 fails on the source: \<open>displayExposure\<close> passes \<open>not showPsf\<close> where
  \<open>displayMaskedImage\<close> expects \<open>showVariance\<close>, so its own argument \<open>showVariance\<close>
  is never read. Called without a request for the variance and without a request for the
  Psf, it draws the variance panel; \<open>displayMaskedImage\<close> with the same request does
  not.
\<close>

theorem displayExposure_variance_unrequested:
  "titles_drawn (displayExposure ex_plt ex_exposure True False False True 8 (5 / 2))
     = Some [''Data'', ''Masks'', ''Variance'']
   \<and> titles_drawn (displayMaskedImage ex_plt (getMaskedImage ex_exposure) True False True 8 (5 / 2))
     = Some [''Data'', ''Masks'']"
  by (simp add: titles_drawn_def displayExposure_def displayMaskedImage_def ex_plt_def
        display2dArray_ex_plane plt_figure_def plt_subplot_def getArrays_def when_shown_def
        Let_def ex_exposure_def)

text \<open>
  C10 fails on the source: \<open>displayImage\<close> passes the image itself where
  \<open>displayImages\<close> expects a tuple, so no panel is drawn for it, whichever way the
  library treats the iteration of an image object: the call raises \<open>TypeError\<close> or it
  returns a figure without panels. The same image in a 1-tuple is drawn as one panel.
\<close>

theorem displayImage_draws_nothing:
  "displayImage NotIterable ex_plt \<lparr>getBBox = ex_box, getArray = ex_plane\<rparr> True 8 (5 / 2)
     = Inl TypeError
   \<and> titles_drawn (displayImage YieldsNothing ex_plt \<lparr>getBBox = ex_box, getArray = ex_plane\<rparr>
                     True 8 (5 / 2)) = Some []
   \<and> titles_drawn (displayImages NotIterable ex_plt
                     (Tuple [\<lparr>getBBox = ex_box, getArray = ex_plane\<rparr>]) True 8 (5 / 2))
     = Some [''Data'']"
  by (simp add: titles_drawn_def displayImage_def displayImages_def ex_plt_def
        display2dArray_ex_plane plt_figure_def plt_subplot_def Let_def)

section \<open>Properties of the catalog helpers\<close>

lemma HeavyFootprintF_isHeavy: "HeavyFootprintF fp mi = Inr hfp \<Longrightarrow> isHeavy hfp"
  by (auto simp: HeavyFootprintF_def isHeavy_def split: if_splits option.splits)

lemma makeHeavy_loop_done:
  "makeHeavy_loop exposure verbose i records = (records', out, None)
     \<Longrightarrow> list_all (\<lambda>s. isHeavy (getFootprint s)) records' \<and> length records' = length records"
proof (induction records arbitrary: i records' out)
  case Nil
  then show ?case by simp
next
  case (Cons source rest)
  show ?case
  proof (cases "isHeavy (getFootprint source)")
    case True
    with Cons.prems obtain rest' where
      "makeHeavy_loop exposure verbose (i + 1) rest = (rest', out, None)"
      "records' = source # rest'"
      by (auto split: prod.splits)
    with Cons.IH True show ?thesis by auto
  next
    case False
    with Cons.prems obtain hfp rest' out' where
      h: "HeavyFootprintF (getFootprint source) (getMaskedImage exposure) = Inr hfp" and
      r: "makeHeavy_loop exposure verbose (i + 1) rest = (rest', out', None)" and
      e: "records' = source\<lparr>getFootprint := hfp\<rparr> # rest'"
      by (auto simp: Let_def split: sum.splits prod.splits)
    from Cons.IH [OF r] HeavyFootprintF_isHeavy [OF h] e show ?thesis by simp
  qed
qed

lemma makeHeavy_loop_all_heavy:
  "list_all (\<lambda>s. isHeavy (getFootprint s)) records
     \<Longrightarrow> makeHeavy_loop exposure verbose i records = (records, [], None)"
  by (induction records arbitrary: i) simp_all

text \<open>Every run that returns leaves a catalog of heavy footprints, on which a run is idle.\<close>

lemma makeHeavyCatalog_returned:
  assumes "makeHeavyCatalog st catalog exposure verbose = (st', out, Inr r)"
  shows "r = catalog
         \<and> (\<forall>c. c \<noteq> catalog \<longrightarrow> st' c = st c)
         \<and> length (st' catalog) = length (st catalog)
         \<and> list_all (\<lambda>s. isHeavy (getFootprint s)) (st' catalog)
         \<and> makeHeavyCatalog st' catalog exposure verbose' = (st', [], Inr catalog)"
proof -
  obtain records out' err where
    loop: "makeHeavy_loop exposure verbose 0 (st catalog) = (records, out', err)"
    by (cases "makeHeavy_loop exposure verbose 0 (st catalog)") auto
  with assms have err: "err = None" and st': "st' = st(catalog := records)" and r: "r = catalog"
    by (auto simp: makeHeavyCatalog_def split: option.splits)
  from makeHeavy_loop_done [OF loop [unfolded err]]
  have heavy: "list_all (\<lambda>s. isHeavy (getFootprint s)) records"
    and len: "length records = length (st catalog)" by auto
  have "makeHeavyCatalog st' catalog exposure verbose' = (st', [], Inr catalog)"
    using makeHeavy_loop_all_heavy [OF heavy, of exposure verbose' 0]
    by (simp add: makeHeavyCatalog_def st')
  with heavy len r show ?thesis by (simp add: st')
qed

text \<open>
  On an exposure whose data plane has the shape of its bounding box, the construction of
  a heavy footprint succeeds for every footprint that fits the exposure, and the loop
  upgrades record after record.
\<close>

lemma HeavyFootprintF_fits:
  assumes shape: "has_shape (mi_BBox (getMaskedImage exposure)) (mi_image (getMaskedImage exposure))"
    and fits: "fits_exposure exposure fp"
  shows "HeavyFootprintF fp (getMaskedImage exposure)
           = Inr (fp\<lparr>heavy := Some (map (\<lambda>p. the (getPixel (mi_BBox (getMaskedImage exposure))
                                                (mi_image (getMaskedImage exposure)) p))
                                     (footprint_pixels fp))\<rparr>)"
proof -
  let ?mi = "getMaskedImage exposure"
  let ?ps = "footprint_pixels fp"
  from fits have inside: "containsBox (mi_BBox ?mi) (fp_BBox fp)"
    and pix: "list_all (containsI (fp_BBox fp)) ?ps"
    by (simp_all add: fits_exposure_def)
  have "those (map (getPixel (mi_BBox ?mi) (mi_image ?mi)) ?ps) \<noteq> None"
  proof (rule those_map_not_None)
    fix p assume "p \<in> set ?ps"
    with pix have "containsI (fp_BBox fp) p" by (simp add: list_all_iff)
    from containsBox_containsI [OF inside this]
    show "getPixel (mi_BBox ?mi) (mi_image ?mi) p \<noteq> None"
      by (rule getPixel_in_shape [OF shape])
  qed
  then obtain vals where t: "those (map (getPixel (mi_BBox ?mi) (mi_image ?mi)) ?ps) = Some vals"
    by auto
  from those_map_Some [OF t]
  have "vals = map (\<lambda>p. the (getPixel (mi_BBox ?mi) (mi_image ?mi) p)) ?ps" by simp
  with inside t show ?thesis by (simp add: HeavyFootprintF_def)
qed

lemma isHeavy_upgraded: "isHeavy (getFootprint (upgraded exposure s))"
  by (simp add: upgraded_def isHeavy_def)

lemma makeHeavy_loop_fits:
  assumes shape: "has_shape (mi_BBox (getMaskedImage exposure)) (mi_image (getMaskedImage exposure))"
    and fits: "list_all (\<lambda>s. isHeavy (getFootprint s) \<or> fits_exposure exposure (getFootprint s))
                 records"
  shows "makeHeavy_loop exposure verbose i records
           = (map (upgraded exposure) records,
              if verbose then upgrade_lines i records else [], None)"
  using fits
proof (induction records arbitrary: i)
  case Nil
  show ?case by simp
next
  case (Cons s rest)
  from Cons.prems have rest: "list_all (\<lambda>s. isHeavy (getFootprint s)
                                \<or> fits_exposure exposure (getFootprint s)) rest"
    by simp
  note IH = Cons.IH [OF rest]
  show ?case
  proof (cases "isHeavy (getFootprint s)")
    case True
    then show ?thesis by (simp add: IH upgraded_def)
  next
    case False
    with Cons.prems have "fits_exposure exposure (getFootprint s)" by simp
    from HeavyFootprintF_fits [OF shape this] False
    show ?thesis by (simp add: IH upgraded_def Let_def)
  qed
qed

text \<open>
  C6: when the data plane of the exposure has the shape of its bounding box and every
  light footprint of the catalog fits the exposure, \<open>makeHeavyCatalog\<close> returns the
  reference it was given and changes the store at that reference only: every light
  footprint is replaced by its heavy version on the exposure, every heavy one is kept,
  and a verbose run prints one line for each replaced record. After the run every
  footprint of the catalog is heavy, and a second run on the resulting store, whatever
  its verbosity, changes nothing, prints nothing and returns the same reference.
\<close>

theorem makeHeavyCatalog_idempotent:
  assumes "has_shape (mi_BBox (getMaskedImage exposure)) (mi_image (getMaskedImage exposure))"
    and "list_all (\<lambda>s. isHeavy (getFootprint s) \<or> fits_exposure exposure (getFootprint s))
           (st catalog)"
  shows "makeHeavyCatalog st catalog exposure verbose
           = (st(catalog := map (upgraded exposure) (st catalog)),
              if verbose then upgrade_lines 0 (st catalog) else [], Inr catalog)
         \<and> list_all (\<lambda>s. isHeavy (getFootprint s)) (map (upgraded exposure) (st catalog))
         \<and> makeHeavyCatalog (st(catalog := map (upgraded exposure) (st catalog))) catalog
              exposure verbose'
             = (st(catalog := map (upgraded exposure) (st catalog)), [], Inr catalog)"
proof -
  let ?records = "map (upgraded exposure) (st catalog)"
  have heavy: "list_all (\<lambda>s. isHeavy (getFootprint s)) ?records"
    by (simp add: list_all_iff isHeavy_upgraded)
  have first: "makeHeavyCatalog st catalog exposure verbose
                 = (st(catalog := ?records),
                    if verbose then upgrade_lines 0 (st catalog) else [], Inr catalog)"
    by (simp add: makeHeavyCatalog_def makeHeavy_loop_fits [OF assms])
  have second: "makeHeavyCatalog (st(catalog := ?records)) catalog exposure verbose'
                  = (st(catalog := ?records), [], Inr catalog)"
    using makeHeavy_loop_all_heavy [OF heavy, of exposure verbose' 0]
    by (simp add: makeHeavyCatalog_def)
  from first heavy second show ?thesis by (intro conjI)
qed

lemma ex_upgraded:
  "map (upgraded ex_exposure) [ex_source, ex_heavy_source] = [ex_heavy_source, ex_heavy_source]"
  by (simp add: upgraded_def ex_source_def ex_heavy_source_def isHeavy_def ex_pixels
        ex_exposure_def ex_box_def ex_plane_def getPixel_def containsI_def Let_def
        getBeginX_def getBeginY_def getEndX_def getEndY_def)
     (simp add: ex_footprint_def)

theorem makeHeavyCatalog_idempotent_witness:
  "makeHeavyCatalog (\<lambda>c. [ex_source, ex_heavy_source]) 0 ex_exposure True
     = ((\<lambda>c. [ex_source, ex_heavy_source])(0 := [ex_heavy_source, ex_heavy_source]),
        [(0, ''not heavy => heavy'')], Inr 0)
   \<and> list_all (\<lambda>s. isHeavy (getFootprint s)) [ex_heavy_source, ex_heavy_source]
   \<and> makeHeavyCatalog ((\<lambda>c. [ex_source, ex_heavy_source])(0 := [ex_heavy_source, ex_heavy_source]))
        0 ex_exposure True
       = ((\<lambda>c. [ex_source, ex_heavy_source])(0 := [ex_heavy_source, ex_heavy_source]), [], Inr 0)"
proof -
  have shape: "has_shape (mi_BBox (getMaskedImage ex_exposure)) (mi_image (getMaskedImage ex_exposure))"
    by (simp add: has_shape_def ex_exposure_def ex_box_def ex_plane_def)
  have light: "\<not> isHeavy (getFootprint ex_source)"
    and hvy: "isHeavy (getFootprint ex_heavy_source)"
    by (simp_all add: isHeavy_def ex_source_def ex_heavy_source_def ex_footprint_def)
  have "fits_exposure ex_exposure (getFootprint ex_source)"
    by (simp add: fits_exposure_def ex_source_def ex_pixels containsI_def)
       (simp add: ex_footprint_def ex_exposure_def ex_box_def containsBox_def
          getBeginX_def getBeginY_def getEndX_def getEndY_def)
  with hvy have fits: "list_all (\<lambda>s. isHeavy (getFootprint s)
                         \<or> fits_exposure ex_exposure (getFootprint s))
                        ((\<lambda>c. [ex_source, ex_heavy_source]) (0::nat))"
    by simp
  have lines: "upgrade_lines 0 [ex_source, ex_heavy_source] = [(0, ''not heavy => heavy'')]"
    using light hvy by simp
  from makeHeavyCatalog_idempotent
         [where st = "\<lambda>c. [ex_source, ex_heavy_source]" and catalog = 0
            and exposure = ex_exposure and verbose = True and verbose' = True, OF shape fits]
  show ?thesis unfolding ex_upgraded lines by (simp add: hvy)
qed

lemma searchCatalog_loop_step:
  "searchCatalog_loop containsD i (s # rest) x y =
     (if bbox_hit containsD x y s then ([i], Some s)
      else searchCatalog_loop containsD (i + 1) rest x y)"
  by (simp add: bbox_hit_def Let_def split: sum.splits)

lemma searchCatalog_loop_find:
  "searchCatalog_loop containsD i catalog x y =
     (case find (bbox_hit containsD x y) catalog of
        None \<Rightarrow> ([], None)
      | Some s \<Rightarrow> ([i + length (takeWhile (\<lambda>s. \<not> bbox_hit containsD x y s) catalog)], Some s))"
proof (induction catalog arbitrary: i)
  case Nil
  show ?case by simp
next
  case (Cons s rest)
  show ?case
    by (simp only: searchCatalog_loop_step Cons.IH) (simp split: option.splits)
qed

text \<open>
  C7: \<open>searchCatalog\<close> returns the first record, in catalog order, whose bounding box
  contains the point, where containment is the floating-point test when that test
  answers and the integer test on the truncated coordinates when it raises, and prints
  the index of that record; when no record's bounding box contains the point it prints
  nothing and returns no record.
\<close>

theorem searchCatalog_first_hit:
  "searchCatalog containsD catalog x y =
     (case find (bbox_hit containsD x y) catalog of
        None \<Rightarrow> ([], None)
      | Some s \<Rightarrow> ([length (takeWhile (\<lambda>s. \<not> bbox_hit containsD x y s) catalog)], Some s))"
  by (simp add: searchCatalog_def searchCatalog_loop_find split: option.splits)

theorem searchCatalog_first_hit_witness:
  "searchCatalog (\<lambda>b p. Inl TypeError) [ex_source, ex_heavy_source] (5 / 2) (3 / 2)
     = ([0], Some ex_source)
   \<and> searchCatalog (\<lambda>b p. Inl TypeError) [ex_source, ex_heavy_source] 7 1 = ([], None)"
proof -
  have f: "\<lfloor>5 / 2 :: real\<rfloor> = 2" "\<lfloor>3 / 2 :: real\<rfloor> = 1" by simp_all
  show ?thesis
    using searchCatalog_first_hit [of "\<lambda>b p. Inl TypeError" "[ex_source, ex_heavy_source]" "5 / 2" "3 / 2"]
          searchCatalog_first_hit [of "\<lambda>b p. Inl TypeError" "[ex_source, ex_heavy_source]" 7 1]
    by (simp add: bbox_hit_def ex_source_def ex_heavy_source_def ex_footprint_def ex_box_def
          containsI_def py_int_def getBeginX_def getBeginY_def getEndX_def getEndY_def f)
qed

end
